theory Spec2Isabelle
  imports Complex_Main
begin

section \<open>The cart store (the \<open>StateContext\<close> provider)\<close>

text \<open>
  The provider keeps its state in React state cells and changes it only inside event
  handlers. One call of a handler is modelled as one function from the state the handler
  closed over to the state after all its queued updates have been applied. JavaScript
  numbers are modelled as unbounded integers (the data model makes quantities whole
  numbers, prices are taken in whole currency units); rounding of doubles is outside the
  model. Strings are character lists.
\<close>

subsection \<open>Data\<close>

record Product =
  p_id :: string
  p_name :: string
  p_price :: int
  p_quantity :: int
  p_weight :: string
  p_image :: string

text \<open>
  The state cells of the provider, in the order of their \<open>useState\<close> calls, and the
  list of messages handed to \<open>toast.success\<close> so far (oldest first), which makes the
  notification side effect of \<open>onAdd\<close> a part of the result.
\<close>

record cart_state =
  showCart :: bool
  cartItems :: "Product list"
  totalPrice :: int
  totalQuantities :: int
  qty :: int
  indexColor :: int
  active :: bool
  toasts :: "string list"

definition initial_cart :: cart_state where
  "initial_cart =
     \<lparr>showCart = False, cartItems = [], totalPrice = 0, totalQuantities = 0, qty = 1,
      indexColor = 1, active = False, toasts = []\<rparr>"

datatype toggle_value = Inc | Dec

subsection \<open>Library functions of the host language\<close>

text \<open>\<open>Array.prototype.findIndex\<close>: the first index whose element satisfies the test, or -1.\<close>

fun findIndex :: "('a \<Rightarrow> bool) \<Rightarrow> 'a list \<Rightarrow> int" where
  "findIndex P [] = - 1"
| "findIndex P (x # xs) =
     (if P x then 0 else (let r = findIndex P xs in if r < 0 then - 1 else r + 1))"

text \<open>
  \<open>xs.splice(start, 0, x)\<close>: a negative start counts from the end, and the start is
  clamped to the length of the array.
\<close>

definition splice_insert :: "'a list \<Rightarrow> int \<Rightarrow> 'a \<Rightarrow> 'a list" where
  "splice_insert xs start x =
     (let n = int (length xs);
          k = (if start < 0 then max (n + start) 0 else min start n)
      in take (nat k) xs @ [x] @ drop (nat k) xs)"

text \<open>
  A number inside a template literal is written in decimal, with a leading minus sign
  when negative.
\<close>

fun digits_of_nat :: "nat \<Rightarrow> string" where
  "digits_of_nat n =
     (if n < 10 then [char_of (48 + n)]
      else digits_of_nat (n div 10) @ [char_of (48 + n mod 10)])"

declare digits_of_nat.simps [simp del]

definition number_to_string :: "int \<Rightarrow> string" where
  "number_to_string i =
     (if i < 0 then ''-'' @ digits_of_nat (nat (- i)) else digits_of_nat (nat i))"

subsection \<open>Operations\<close>

text \<open>
  \<open>onAdd\<close> assigns to two fields of the object it is given before it stores a copy, so
  the model returns the caller's object after the call next to the new state.
\<close>

definition toast_text :: "int \<Rightarrow> Product \<Rightarrow> string" where
  "toast_text n product =
     number_to_string n @ '' '' @ p_name product @ '' ('' @ p_weight product
       @ '') added to the cart.''"

definition onAdd :: "cart_state \<Rightarrow> Product \<Rightarrow> int \<Rightarrow> cart_state \<times> Product" where
  "onAdd s product quantity =
     (let uniqueId = p_id product @ ''-'' @ p_weight product;
          checkProductInCart = find (\<lambda>item. p_id item = uniqueId) (cartItems s);
          s1 = s\<lparr>totalPrice := totalPrice s + p_price product * quantity\<rparr>;
          s2 = s1\<lparr>totalQuantities := totalQuantities s1 + quantity\<rparr>;
          (s3, product') =
            (case checkProductInCart of
               Some _ \<Rightarrow>
                 (s2\<lparr>cartItems :=
                       map (\<lambda>cartProduct.
                              if uniqueId = p_id cartProduct
                              then cartProduct\<lparr>p_quantity := p_quantity cartProduct + quantity\<rparr>
                              else cartProduct)
                           (cartItems s)\<rparr>,
                  product)
             | None \<Rightarrow>
                 (let product1 = product\<lparr>p_quantity := quantity\<rparr>;
                      product2 = product1\<lparr>p_id := uniqueId\<rparr>
                  in (s2\<lparr>cartItems := cartItems s @ [product2]\<rparr>, product2)))
      in (s3\<lparr>toasts := toasts s3 @ [toast_text (qty s) product']\<rparr>, product'))"

definition onRemove :: "cart_state \<Rightarrow> Product \<Rightarrow> cart_state" where
  "onRemove s product =
     (case find (\<lambda>item. p_id item = p_id product) (cartItems s) of
        None \<Rightarrow> s
      | Some foundProduct \<Rightarrow>
          (let newCartItems = filter (\<lambda>item. p_id item \<noteq> p_id product) (cartItems s);
               s1 = s\<lparr>totalPrice :=
                         totalPrice s - p_price foundProduct * p_quantity foundProduct\<rparr>;
               s2 = s1\<lparr>totalQuantities := totalQuantities s1 - p_quantity foundProduct\<rparr>
           in s2\<lparr>cartItems := newCartItems\<rparr>))"

definition toggleCartItemQuanitity :: "cart_state \<Rightarrow> string \<Rightarrow> toggle_value \<Rightarrow> cart_state" where
  "toggleCartItemQuanitity s i v =
     (case find (\<lambda>item. p_id item = i) (cartItems s) of
        None \<Rightarrow> s
      | Some foundProduct \<Rightarrow>
          (let index = findIndex (\<lambda>product. p_id product = i) (cartItems s);
               newCartItems = filter (\<lambda>item. p_id item \<noteq> i) (cartItems s)
           in (case v of
                 Inc \<Rightarrow>
                   (let s1 = s\<lparr>cartItems :=
                                 splice_insert newCartItems index
                                   (foundProduct\<lparr>p_quantity := p_quantity foundProduct + 1\<rparr>)\<rparr>;
                        s2 = s1\<lparr>totalPrice := totalPrice s1 + p_price foundProduct\<rparr>
                    in s2\<lparr>totalQuantities := totalQuantities s2 + 1\<rparr>)
               | Dec \<Rightarrow>
                   (if p_quantity foundProduct > 1
                    then (let s1 = s\<lparr>cartItems :=
                                       splice_insert newCartItems index
                                         (foundProduct\<lparr>p_quantity := p_quantity foundProduct - 1\<rparr>)\<rparr>;
                              s2 = s1\<lparr>totalPrice := totalPrice s1 - p_price foundProduct\<rparr>
                          in s2\<lparr>totalQuantities := totalQuantities s2 - 1\<rparr>)
                    else s))))"

definition incQty :: "cart_state \<Rightarrow> cart_state" where
  "incQty s = s\<lparr>qty := qty s + 1\<rparr>"

definition decQty :: "cart_state \<Rightarrow> cart_state" where
  "decQty s = s\<lparr>qty := (if qty s - 1 < 1 then 1 else qty s - 1)\<rparr>"

text \<open>Sequences of handler calls. An \<open>Add\<close> carries the object as it is at the call.\<close>

datatype cart_op =
  Add Product int
| Remove Product
| Toggle string toggle_value
| IncQty
| DecQty

fun apply_op :: "cart_state \<Rightarrow> cart_op \<Rightarrow> cart_state" where
  "apply_op s (Add product quantity) = fst (onAdd s product quantity)"
| "apply_op s (Remove product) = onRemove s product"
| "apply_op s (Toggle i v) = toggleCartItemQuanitity s i v"
| "apply_op s IncQty = incQty s"
| "apply_op s DecQty = decQty s"

fun run_ops :: "cart_state \<Rightarrow> cart_op list \<Rightarrow> cart_state" where
  "run_ops s [] = s"
| "run_ops s (op # ops) = run_ops (apply_op s op) ops"

text \<open>
  The provider also has an effect on the document body: scrolling is suspended while the
  cart or another overlay is open.
\<close>

definition bodyOverflowY :: "cart_state \<Rightarrow> string" where
  "bodyOverflowY s = (if showCart s \<or> active s then ''hidden'' else ''auto'')"

subsection \<open>Derived quantities and predicates on cart states\<close>

text \<open>
  The definitions of this subsection are not functions of the provider; they name what the
  statements below talk about. \<open>composite_key\<close> is the value of \<open>uniqueId\<close> in \<open>onAdd\<close>,
  and \<open>merge_quantity\<close> the function \<open>onAdd\<close> maps over the line items when the key is
  present.
\<close>

definition composite_key :: "Product \<Rightarrow> string" where
  "composite_key product = p_id product @ ''-'' @ p_weight product"

definition in_cart :: "string \<Rightarrow> cart_state \<Rightarrow> bool" where
  "in_cart k s = (k \<in> set (map p_id (cartItems s)))"

definition merge_quantity :: "string \<Rightarrow> int \<Rightarrow> Product \<Rightarrow> Product" where
  "merge_quantity k n item =
     (if k = p_id item then item\<lparr>p_quantity := p_quantity item + n\<rparr> else item)"

text \<open>
  The list \<open>toggleCartItemQuanitity\<close> builds: the items under other identifiers, with the
  changed item spliced in at the index of the first item under the identifier.
\<close>

definition reinsert :: "Product list \<Rightarrow> string \<Rightarrow> Product \<Rightarrow> Product list" where
  "reinsert xs i y =
     splice_insert (filter (\<lambda>item. p_id item \<noteq> i) xs)
       (findIndex (\<lambda>item. p_id item = i) xs) y"



definition ids_distinct :: "cart_state \<Rightarrow> bool" where
  "ids_distinct s = distinct (map p_id (cartItems s))"



definition quantities_positive :: "cart_state \<Rightarrow> bool" where
  "quantities_positive s = list_all (\<lambda>item. 1 \<le> p_quantity item) (cartItems s)"



fun adds_at_least_one :: "cart_state \<Rightarrow> cart_op \<Rightarrow> bool" where
  "adds_at_least_one s (Add product quantity) = (1 \<le> quantity)"
| "adds_at_least_one s _ = True"

fun holds_along ::
    "(cart_state \<Rightarrow> cart_op \<Rightarrow> bool) \<Rightarrow> cart_state \<Rightarrow> cart_op list \<Rightarrow> bool" where
  "holds_along C s [] = True"
| "holds_along C s (op # ops) = (C s op \<and> holds_along C (apply_op s op) ops)"

text \<open>
  The sum of the quantities that a list of adds carries under one key, and the quantity
  stored under a key (0 when the key is absent).
\<close>

definition added_under :: "string \<Rightarrow> (Product \<times> int) list \<Rightarrow> int" where
  "added_under k adds = (\<Sum>(p, q)\<leftarrow>adds. if composite_key p = k then q else 0)"

definition stored_quantity :: "cart_state \<Rightarrow> string \<Rightarrow> int" where
  "stored_quantity s k =
     (case find (\<lambda>item. p_id item = k) (cartItems s) of
        None \<Rightarrow> 0
      | Some f \<Rightarrow> p_quantity f)"

text \<open>A product object as a product page would pass it to \<open>onAdd\<close>, for the examples.\<close>

definition sample_product :: "string \<Rightarrow> int \<Rightarrow> string \<Rightarrow> Product" where
  "sample_product i pr w =
     \<lparr>p_id = i, p_name = ''Blueberries'', p_price = pr, p_quantity = 0, p_weight = w,
      p_image = ''/images/berries.jpg''\<rparr>"

section \<open>The article catalogue (the \<open>InsightsPage\<close> view model)\<close>

text \<open>
  The page keeps the search text, the selected category, the page number, the articles
  converted from the remote collection and the loading flag in state cells; everything it
  shows is computed from these at each render. Strings are byte strings, so lower-casing is
  modelled on the ASCII letters (the compiled-in articles are ASCII).
\<close>

subsection \<open>Data\<close>

datatype article_source = Static | Pseo

record Article =
  a_id :: string
  a_slug :: string
  a_title :: string
  a_excerpt :: string
  a_date :: string
  a_readTime :: string
  a_category :: string
  a_image :: string
  a_tags :: "string list"
  a_source :: article_source

text \<open>A record of the remote collection, with the fields the conversion reads.\<close>

record SeoPage =
  sp_id :: string
  sp_state :: string
  sp_city :: string
  sp_metaTitle :: string
  sp_metaDescription :: string
  sp_createdAt :: string

record catalog_state =
  searchQuery :: string
  selectedCategory :: string
  currentPage :: int
  pseoPages :: "Article list"
  loading :: bool
  totalPages :: int

definition initial_catalog :: catalog_state where
  "initial_catalog =
     \<lparr>searchQuery = [], selectedCategory = ''All'', currentPage = 1, pseoPages = [],
      loading = True, totalPages = 1\<rparr>"

definition itemsPerPage :: int where
  "itemsPerPage = 12"

text \<open>The articles compiled into the page, in their authored order.\<close>

definition staticArticles :: "Article list" where
  "staticArticles =
    [
     \<lparr>
      a_id = ''1'',
      a_slug = ''global-blueberry-price-trends'',
      a_title = ''Global Blueberry Wholesale Price Trends 2025-2035'',
      a_excerpt = ''Market analysis reveals 6-7.2% CAGR growth driven by increasing global demand and health consciousness. Discover the factors shaping blueberry prices over the next decade.'',
      a_date = ''December 2024'',
      a_readTime = ''8 min read'',
      a_category = ''Market Analysis'',
      a_image = ''/images/Blueberry Lifecycle.jpg'',
      a_tags = [''Price Trends'', ''Market Analysis'', ''Investment''],
      a_source = Static\<rparr>,
     \<lparr>
      a_id = ''6'',
      a_slug = ''google-trends-blueberry-demand-india'',
      a_title = ''Google Trends Reveal 9% Growth in Blueberry Interest: India's Rising Opportunity'',
      a_excerpt = ''Google search data shows 8.5M monthly searches for blueberries with 9% year-over-year growth, highlighting massive untapped potential in the Indian market as global demand soars.'',
      a_date = ''December 2024'',
      a_readTime = ''6 min read'',
      a_category = ''Market Research'',
      a_image = ''/images/Blueberry Plant in a Polyhouse.jpg'',
      a_tags = [''Google Trends'', ''Market Demand'', ''India Opportunity''],
      a_source = Static\<rparr>,
     \<lparr>
      a_id = ''2'',
      a_slug = ''blueberry-farming-india'',
      a_title = ''Why Blueberry Farming is the Future of Agriculture in India'',
      a_excerpt = ''Explore how blueberry cultivation is transforming Indian agriculture with high returns, sustainable practices, and growing domestic demand.'',
      a_date = ''December 2024'',
      a_readTime = ''6 min read'',
      a_category = ''Farming Guide'',
      a_image = ''/images/Blueberry Rows in Polytunnel in Fruiting Phase.jpg'',
      a_tags = [''India'', ''Farming'', ''Sustainability''],
      a_source = Static\<rparr>,
     \<lparr>
      a_id = ''3'',
      a_slug = ''health-benefits-blueberries'',
      a_title = ''The Science Behind Blueberries: Health Benefits That Drive Demand'',
      a_excerpt = ''From antioxidants to brain health, discover why health-conscious consumers are driving unprecedented demand for blueberries worldwide.'',
      a_date = ''December 2024'',
      a_readTime = ''5 min read'',
      a_category = ''Health & Nutrition'',
      a_image = ''/images/Blueberry Pudding.jpg'',
      a_tags = [''Health'', ''Nutrition'', ''Consumer Trends''],
      a_source = Static\<rparr>,
     \<lparr>
      a_id = ''4'',
      a_slug = ''blueberry-varieties-india'',
      a_title = ''Best Blueberry Varieties for Indian Climate: A Comprehensive Guide'',
      a_excerpt = ''Learn about the most suitable blueberry cultivars for different Indian regions, their yield potential, and climate requirements.'',
      a_date = ''December 2024'',
      a_readTime = ''7 min read'',
      a_category = ''Technical Guide'',
      a_image = ''/images/The Life Cycle of a Blueberry.jpeg'',
      a_tags = [''Varieties'', ''Climate'', ''Technical''],
      a_source = Static\<rparr>,
     \<lparr>
      a_id = ''5'',
      a_slug = ''roi-analysis-blueberry-farming'',
      a_title = ''ROI Analysis: Blueberry Farming vs Traditional Crops'',
      a_excerpt = ''A detailed financial comparison showing why blueberry farming offers 5X returns compared to traditional Indian crops.'',
      a_date = ''December 2024'',
      a_readTime = ''10 min read'',
      a_category = ''Financial Analysis'',
      a_image = ''/images/hero-desktop.jpg'',
      a_tags = [''ROI'', ''Financial'', ''Comparison''],
      a_source = Static\<rparr>,
     \<lparr>
      a_id = ''12'',
      a_slug = ''blueberry-export-opportunities-india'',
      a_title = ''India's Blueberry Export Potential: Tapping Global Markets'',
      a_excerpt = ''Explore the untapped potential of blueberry exports from India to international markets. Learn about global demand, quality standards, and profit margins.'',
      a_date = ''December 2024'',
      a_readTime = ''8 min read'',
      a_category = ''Export Strategy'',
      a_image = ''/images/Blueberry Lifecycle.jpg'',
      a_tags = [''Export'', ''Global Markets'', ''International Trade''],
      a_source = Static\<rparr>,
     \<lparr>
      a_id = ''13'',
      a_slug = ''climate-controlled-farming-benefits'',
      a_title = ''Climate-Controlled Blueberry Farming: 5X Higher Yields'',
      a_excerpt = ''Discover how polyhouse cultivation and climate control systems boost blueberry yields by 500% compared to open-field farming.'',
      a_date = ''December 2024'',
      a_readTime = ''6 min read'',
      a_category = ''Technology'',
      a_image = ''/images/Blueberry Plant in a Polyhouse.jpg'',
      a_tags = [''Climate Control'', ''Polyhouse'', ''Technology''],
      a_source = Static\<rparr>,
     \<lparr>
      a_id = ''14'',
      a_slug = ''government-subsidies-blueberry-farming'',
      a_title = ''Government Subsidies for Blueberry Farming: Save Up to 50%'',
      a_excerpt = ''Complete guide to agricultural subsidies, grants, and support schemes available for blueberry farming in India. Reduce your investment by up to 50%.'',
      a_date = ''December 2024'',
      a_readTime = ''9 min read'',
      a_category = ''Government Schemes'',
      a_image = ''/images/Blueberry Rows in Polytunnel in Fruiting Phase.jpg'',
      a_tags = [''Subsidies'', ''Government'', ''Financial Support''],
      a_source = Static\<rparr>,
     \<lparr>
      a_id = ''15'',
      a_slug = ''organic-blueberry-certification-india'',
      a_title = ''Organic Blueberry Certification: Premium Pricing Strategy'',
      a_excerpt = ''Learn how organic certification can increase your blueberry prices by 40-60%. Step-by-step guide to organic farming and certification process.'',
      a_date = ''December 2024'',
      a_readTime = ''7 min read'',
      a_category = ''Organic Farming'',
      a_image = ''/images/The Life Cycle of a Blueberry.jpeg'',
      a_tags = [''Organic'', ''Certification'', ''Premium Pricing''],
      a_source = Static\<rparr>,
     \<lparr>
      a_id = ''7'',
      a_slug = ''../tea-estate-partnership'',
      a_title = ''Tea Estate Partnership: Convert Your Tea Garden to Blueberry Farm'',
      a_excerpt = ''Transform your tea estate into a high-yield blueberry farm with 6x higher profits. Explore sub-lease, joint venture, or land sale options with 20-35% ROI.'',
      a_date = ''December 2024'',
      a_readTime = ''12 min read'',
      a_category = ''Partnership Opportunities'',
      a_image = ''/images/Blueberry Plant in a Polyhouse.jpg'',
      a_tags = [''Tea Estate'', ''Partnership'', ''Land Conversion''],
      a_source = Static\<rparr>,
     \<lparr>
      a_id = ''8'',
      a_slug = ''../investment/west-bengal/siliguri'',
      a_title = ''Blueberry Farming Investment in Siliguri: Complete Guide'',
      a_excerpt = ''Discover why Siliguri offers ideal conditions for blueberry farming with excellent climate, soil pH, and government support. Calculate your ROI for this emerging opportunity.'',
      a_date = ''December 2024'',
      a_readTime = ''10 min read'',
      a_category = ''Location Investment'',
      a_image = ''/images/The Life Cycle of a Blueberry.jpeg'',
      a_tags = [''Siliguri'', ''West Bengal'', ''Investment Calculator''],
      a_source = Static\<rparr>,
     \<lparr>
      a_id = ''9'',
      a_slug = ''../investment/assam/guwahati'',
      a_title = ''Guwahati Blueberry Farm Investment: Northeast India Opportunity'',
      a_excerpt = ''Explore blueberry farming investment opportunities in Guwahati with detailed climate analysis, soil conditions, and projected returns in Assam's agricultural hub.'',
      a_date = ''December 2024'',
      a_readTime = ''10 min read'',
      a_category = ''Location Investment'',
      a_image = ''/images/Blueberry Rows in Polytunnel in Fruiting Phase.jpg'',
      a_tags = [''Guwahati'', ''Assam'', ''Northeast India''],
      a_source = Static\<rparr>,
     \<lparr>
      a_id = ''10'',
      a_slug = ''../investment/meghalaya/shillong'',
      a_title = ''Shillong Blueberry Cultivation: Hill Station Farming Advantage'',
      a_excerpt = ''Leverage Shillong's unique hill climate and acidic soil for premium blueberry cultivation. Learn about Meghalaya's agricultural policies and investment incentives.'',
      a_date = ''December 2024'',
      a_readTime = ''9 min read'',
      a_category = ''Location Investment'',
      a_image = ''/images/Blueberry Plant in a Polyhouse.jpg'',
      a_tags = [''Shillong'', ''Meghalaya'', ''Hill Station Farming''],
      a_source = Static\<rparr>,
     \<lparr>
      a_id = ''11'',
      a_slug = ''../investment/sikkim/gangtok'',
      a_title = ''Gangtok Blueberry Farming: High-Altitude Organic Advantage'',
      a_excerpt = ''Discover why Gangtok's high-altitude climate and organic farming tradition make it perfect for premium blueberry cultivation with excellent export potential.'',
      a_date = ''December 2024'',
      a_readTime = ''9 min read'',
      a_category = ''Location Investment'',
      a_image = ''/images/Blueberry Lifecycle.jpg'',
      a_tags = [''Gangtok'', ''Sikkim'', ''High Altitude''],
      a_source = Static\<rparr>
    ]"

subsection \<open>String and array functions of the host language\<close>

definition lower_char :: "char \<Rightarrow> char" where
  "lower_char c =
     (let n = (of_char c :: nat) in if 65 \<le> n \<and> n \<le> 90 then char_of (n + 32) else c)"

definition toLowerCase :: "string \<Rightarrow> string" where
  "toLowerCase s = map lower_char s"

text \<open>\<open>hay.includes(needle)\<close>: the needle occurs at some position of the hay.\<close>

fun includes_str :: "'a list \<Rightarrow> 'a list \<Rightarrow> bool" where
  "includes_str [] needle = (needle = [])"
| "includes_str (h # hs) needle = (take (length needle) (h # hs) = needle \<or> includes_str hs needle)"

text \<open>The white space matched by \<open>\s\<close>, among the ASCII characters.\<close>

definition is_space :: "char \<Rightarrow> bool" where
  "is_space c = (c \<in> set [CHR '' '', CHR 0x09, CHR 0x0A, CHR 0x0B, CHR 0x0C, CHR 0x0D])"

text \<open>\<open>s.replace(/\s+/g, '-')\<close>: every maximal run of white space becomes one hyphen.\<close>

function hyphenate :: "string \<Rightarrow> string" where
  "hyphenate [] = []"
| "hyphenate (c # cs) =
     (if is_space c then CHR ''-'' # hyphenate (dropWhile is_space cs) else c # hyphenate cs)"
  by pat_completeness auto
termination
  by (relation "measure length") (auto simp: length_dropWhile_le less_Suc_eq_le)

text \<open>
  \<open>xs.slice(start, end)\<close>: a negative bound counts from the end, both bounds are clamped
  to the array, and an end before the start gives the empty array.
\<close>

definition slice :: "'a list \<Rightarrow> int \<Rightarrow> int \<Rightarrow> 'a list" where
  "slice xs start finish =
     (let n = int (length xs);
          k = (if start < 0 then max (n + start) 0 else min start n);
          final = (if finish < 0 then max (n + finish) 0 else min finish n)
      in take (nat (max (final - k) 0)) (drop (nat k) xs))"

text \<open>\<open>[...new Set(xs)]\<close>: the distinct elements in the order of their first occurrence.\<close>

definition distinct_in_order :: "'a list \<Rightarrow> 'a list" where
  "distinct_in_order xs = rev (remdups (rev xs))"

subsection \<open>Conversion of remote records\<close>

definition stock_images :: "string list" where
  "stock_images =
     [''Blueberry Lifecycle.jpg'', ''Blueberry Plant in a Polyhouse.jpg'',
      ''Blueberry Rows in Polytunnel in Fruiting Phase.jpg'',
      ''The Life Cycle of a Blueberry.jpeg'']"

text \<open>
  The conversion reads the clock-free but locale-dependent date formatter and a random
  number. Both are arguments here: \<open>formatDate\<close> stands for
  \<open>new Date(_).toLocaleDateString('en-US', {month: 'long', year: 'numeric'})\<close> and \<open>draw\<close>
  for the value of \<open>Math.floor(Math.random() * 4)\<close>. Indexing the image list beyond its end
  gives \<open>undefined\<close>, which the template literal prints as that word.
\<close>

definition convertPSEOToArticle :: "(string \<Rightarrow> string) \<Rightarrow> SeoPage \<times> nat \<Rightarrow> Article" where
  "convertPSEOToArticle formatDate pd =
     (let seoPage = fst pd; draw = snd pd
      in \<lparr>a_id = sp_id seoPage,
          a_slug = ''../investment/'' @ hyphenate (toLowerCase (sp_state seoPage)) @ ''/''
                     @ hyphenate (toLowerCase (sp_city seoPage)),
          a_title = sp_metaTitle seoPage,
          a_excerpt = sp_metaDescription seoPage,
          a_date = formatDate (sp_createdAt seoPage),
          a_readTime = ''10 min read'',
          a_category = ''Location Investment'',
          a_image = ''/images/''
                     @ (if draw < length stock_images then stock_images ! draw else ''undefined''),
          a_tags = [sp_city seoPage, sp_state seoPage, ''Investment Guide''],
          a_source = Pseo\<rparr>)"

subsection \<open>Loading\<close>

text \<open>
  What the one request made on mount can come to: the request is rejected; a response
  arrives whose status is not a success; a successful response whose body cannot be read as
  an object with an array \<open>pages\<close> (reading it throws inside the \<open>try\<close>); a successful
  response with its pages, each paired with the random number drawn when it is converted.
\<close>

datatype fetch_outcome =
  NetworkError
| HttpFailure
| BadBody
| Pages "(SeoPage \<times> nat) list"

text \<open>
  \<open>fetchPSEOPages\<close> returns the state after the request has settled and the lines written
  to the error console.
\<close>

definition fetchPSEOPages ::
    "(string \<Rightarrow> string) \<Rightarrow> catalog_state \<Rightarrow> fetch_outcome \<Rightarrow> catalog_state \<times> string list" where
  "fetchPSEOPages formatDate s outcome =
     (case outcome of
        Pages pages \<Rightarrow>
          (let convertedPages = map (convertPSEOToArticle formatDate) pages;
               s1 = s\<lparr>pseoPages := convertedPages\<rparr>
           in (s1\<lparr>loading := False\<rparr>, []))
      | HttpFailure \<Rightarrow> (s\<lparr>loading := False\<rparr>, [])
      | _ \<Rightarrow> (s\<lparr>loading := False\<rparr>, [''Error fetching pSEO pages:'']))"

subsection \<open>What a render computes\<close>

definition allArticles :: "catalog_state \<Rightarrow> Article list" where
  "allArticles s = staticArticles @ pseoPages s"

definition categories :: "catalog_state \<Rightarrow> string list" where
  "categories s = ''All'' # distinct_in_order (map a_category (allArticles s))"

definition matchesSearch :: "string \<Rightarrow> Article \<Rightarrow> bool" where
  "matchesSearch q article =
     (includes_str (toLowerCase (a_title article)) (toLowerCase q)
      \<or> includes_str (toLowerCase (a_excerpt article)) (toLowerCase q)
      \<or> list_ex (\<lambda>tag. includes_str (toLowerCase tag) (toLowerCase q)) (a_tags article))"

definition matchesCategory :: "string \<Rightarrow> Article \<Rightarrow> bool" where
  "matchesCategory c article = (c = ''All'' \<or> a_category article = c)"

definition filteredArticles :: "catalog_state \<Rightarrow> Article list" where
  "filteredArticles s =
     filter (\<lambda>article. matchesSearch (searchQuery s) article
                         \<and> matchesCategory (selectedCategory s) article)
       (allArticles s)"

definition totalFilteredPages :: "catalog_state \<Rightarrow> int" where
  "totalFilteredPages s = \<lceil>real (length (filteredArticles s)) / real_of_int itemsPerPage\<rceil>"

definition startIndex :: "catalog_state \<Rightarrow> int" where
  "startIndex s = (currentPage s - 1) * itemsPerPage"

definition paginatedArticles :: "catalog_state \<Rightarrow> Article list" where
  "paginatedArticles s = slice (filteredArticles s) (startIndex s) (startIndex s + itemsPerPage)"

subsection \<open>Events\<close>

text \<open>
  The effect that resets the page has the search text and the category as dependencies: it
  runs after a render in which one of them differs from the render before. A change of
  either cell and the run of the effect that follows it are one step of the model.
\<close>

definition reset_effect :: "catalog_state \<Rightarrow> catalog_state \<Rightarrow> catalog_state" where
  "reset_effect before s =
     (if searchQuery s \<noteq> searchQuery before \<or> selectedCategory s \<noteq> selectedCategory before
      then s\<lparr>currentPage := 1\<rparr> else s)"

definition setSearchQuery :: "catalog_state \<Rightarrow> string \<Rightarrow> catalog_state" where
  "setSearchQuery s q = reset_effect s (s\<lparr>searchQuery := q\<rparr>)"

definition setSelectedCategory :: "catalog_state \<Rightarrow> string \<Rightarrow> catalog_state" where
  "setSelectedCategory s c = reset_effect s (s\<lparr>selectedCategory := c\<rparr>)"

definition previousPage :: "catalog_state \<Rightarrow> catalog_state" where
  "previousPage s = s\<lparr>currentPage := max (currentPage s - 1) 1\<rparr>"

definition nextPage :: "catalog_state \<Rightarrow> catalog_state" where
  "nextPage s = s\<lparr>currentPage := min (currentPage s + 1) (totalFilteredPages s)\<rparr>"

definition goToPage :: "catalog_state \<Rightarrow> int \<Rightarrow> catalog_state" where
  "goToPage s pageNum = s\<lparr>currentPage := pageNum\<rparr>"

datatype ui_event =
  FetchSettled fetch_outcome
| SearchInput string
| CategoryClick string
| PreviousClick
| NextClick
| PageClick int
| LastPageClick

text \<open>
  Which events a render offers. While \<open>loading\<close> holds the page shows the spinner alone
  and the request is still open; afterwards the search box and one button per category
  are there. The pagination bar is rendered only when there is more than one page: the
  Previous and Next buttons are disabled on the first and on the last page, there is one
  numbered button for each of the first five pages, and a button for the last page when
  there are more than five.
\<close>

fun offered :: "catalog_state \<Rightarrow> ui_event \<Rightarrow> bool" where
  "offered s (FetchSettled outcome) = loading s"
| "offered s (SearchInput q) = (\<not> loading s)"
| "offered s (CategoryClick c) = (\<not> loading s \<and> c \<in> set (categories s))"
| "offered s PreviousClick = (\<not> loading s \<and> 1 < totalFilteredPages s \<and> currentPage s \<noteq> 1)"
| "offered s NextClick =
     (\<not> loading s \<and> 1 < totalFilteredPages s \<and> currentPage s \<noteq> totalFilteredPages s)"
| "offered s (PageClick pageNum) =
     (\<not> loading s \<and> 1 < totalFilteredPages s
      \<and> 1 \<le> pageNum \<and> pageNum \<le> min 5 (totalFilteredPages s))"
| "offered s LastPageClick = (\<not> loading s \<and> 5 < totalFilteredPages s)"

fun on_event :: "(string \<Rightarrow> string) \<Rightarrow> catalog_state \<Rightarrow> ui_event \<Rightarrow> catalog_state" where
  "on_event formatDate s (FetchSettled outcome) = fst (fetchPSEOPages formatDate s outcome)"
| "on_event formatDate s (SearchInput q) = setSearchQuery s q"
| "on_event formatDate s (CategoryClick c) = setSelectedCategory s c"
| "on_event formatDate s PreviousClick = previousPage s"
| "on_event formatDate s NextClick = nextPage s"
| "on_event formatDate s (PageClick pageNum) = goToPage s pageNum"
| "on_event formatDate s LastPageClick = goToPage s (totalFilteredPages s)"

definition step :: "(string \<Rightarrow> string) \<Rightarrow> catalog_state \<Rightarrow> ui_event \<Rightarrow> catalog_state" where
  "step formatDate s e = (if offered s e then on_event formatDate s e else s)"

fun run_events :: "(string \<Rightarrow> string) \<Rightarrow> catalog_state \<Rightarrow> ui_event list \<Rightarrow> catalog_state" where
  "run_events formatDate s [] = s"
| "run_events formatDate s (e # es) = run_events formatDate (step formatDate s e) es"

subsection \<open>The filter in the words of the specification, and predicates on catalogue states\<close>

text \<open>
  These two definitions follow the specification, not the page: a text contains a term
  case-insensitively when some stretch of the text equals the term up to letter case, and a
  record matches when its title, its excerpt or one of its tags contains the search text in
  that sense and its category is the selected one, the sentinel \<open>All\<close> matching every
  record. They are compared with \<open>filteredArticles\<close> below.
\<close>

definition contains_ignoring_case :: "string \<Rightarrow> string \<Rightarrow> bool" where
  "contains_ignoring_case text term =
     (\<exists>before part after. text = before @ part @ after \<and> toLowerCase part = toLowerCase term)"

definition spec_matches :: "string \<Rightarrow> string \<Rightarrow> Article \<Rightarrow> bool" where
  "spec_matches term category article =
     ((contains_ignoring_case (a_title article) term
       \<or> contains_ignoring_case (a_excerpt article) term
       \<or> (\<exists>tag \<in> set (a_tags article). contains_ignoring_case tag term))
      \<and> (category = ''All'' \<or> a_category article = category))"

text \<open>
  The page number lies in the range of pages whenever there is a page. \<open>page_settled\<close> is
  the form of this that every step preserves: it also records that no page has been
  chosen while the request is open.
\<close>

definition page_in_range :: "catalog_state \<Rightarrow> bool" where
  "page_in_range s =
     (1 \<le> currentPage s
      \<and> (1 \<le> totalFilteredPages s \<longrightarrow> currentPage s \<le> totalFilteredPages s))"

definition page_settled :: "catalog_state \<Rightarrow> bool" where
  "page_settled s =
     (1 \<le> currentPage s \<and> (currentPage s = 1 \<or> currentPage s \<le> totalFilteredPages s)
      \<and> (loading s \<longrightarrow> currentPage s = 1))"

text \<open>The clicks on the pagination bar, and the outcomes in which the request failed.\<close>

fun is_navigation :: "ui_event \<Rightarrow> bool" where
  "is_navigation PreviousClick = True"
| "is_navigation NextClick = True"
| "is_navigation (PageClick pageNum) = True"
| "is_navigation LastPageClick = True"
| "is_navigation _ = False"

fun failed :: "fetch_outcome \<Rightarrow> bool" where
  "failed (Pages pages) = False"
| "failed _ = True"

section \<open>Properties of the cart operations\<close>

lemma splice_insert_0: "splice_insert zs 0 y = y # zs"
  by (simp add: splice_insert_def)

lemma splice_insert_Cons: "0 \<le> r \<Longrightarrow> splice_insert (x # zs) (r + 1) y = x # splice_insert zs r y"
  by (simp add: splice_insert_def Let_def nat_add_distrib min_def)

lemma findIndex_ge: "- 1 \<le> findIndex P xs"
  by (induction xs) (auto simp: Let_def)

lemma findIndex_found: "find P xs = Some f \<Longrightarrow> 0 \<le> findIndex P xs"
  by (induction xs) (auto simp: Let_def split: if_splits)

lemma findIndex_absent: "find P xs = None \<Longrightarrow> findIndex P xs = - 1"
  by (induction xs) (auto simp: Let_def split: if_splits)

lemma filter_other_ids: "i \<notin> set (map p_id xs) \<Longrightarrow> filter (\<lambda>item. p_id item \<noteq> i) xs = xs"
  by (induction xs) auto


lemma reinsert_ids:
  assumes "find (\<lambda>item. p_id item = i) xs = Some f" and "p_id y = i"
  shows "set (map p_id (splice_insert (filter (\<lambda>item. p_id item \<noteq> i) xs)
             (findIndex (\<lambda>item. p_id item = i) xs) y)) = set (map p_id xs)"
  using assms
proof (induction xs)
  case Nil
  then show ?case by simp
next
  case (Cons x xs)
  show ?case
  proof (cases "p_id x = i")
    case True
    with Cons.prems show ?thesis by (auto simp: splice_insert_0)
  next
    case False
    with Cons.prems have fnd: "find (\<lambda>item. p_id item = i) xs = Some f" by auto
    have nn: "0 \<le> findIndex (\<lambda>item. p_id item = i) xs" using fnd by (rule findIndex_found)
    from False nn show ?thesis
      using Cons.IH [OF fnd Cons.prems(2)] by (simp add: Let_def splice_insert_Cons)
  qed
qed

lemma reinsert_map_ids:
  assumes "distinct (map p_id xs)" and "find (\<lambda>item. p_id item = i) xs = Some f" and "p_id y = i"
  shows "map p_id (splice_insert (filter (\<lambda>item. p_id item \<noteq> i) xs)
             (findIndex (\<lambda>item. p_id item = i) xs) y) = map p_id xs"
  using assms
proof (induction xs)
  case Nil
  then show ?case by simp
next
  case (Cons x xs)
  show ?case
  proof (cases "p_id x = i")
    case True
    with Cons.prems have "i \<notin> set (map p_id xs)" by auto
    with True Cons.prems show ?thesis by (simp add: splice_insert_0 filter_other_ids)
  next
    case False
    with Cons.prems have fnd: "find (\<lambda>item. p_id item = i) xs = Some f" and d: "distinct (map p_id xs)"
      by auto
    have nn: "0 \<le> findIndex (\<lambda>item. p_id item = i) xs" using fnd by (rule findIndex_found)
    from False nn show ?thesis
      using Cons.IH [OF d fnd Cons.prems(3)] by (simp add: Let_def splice_insert_Cons)
  qed
qed

lemma reinsert_set:
  "set (splice_insert (filter (\<lambda>item. p_id item \<noteq> i) xs) k y) \<subseteq> insert y (set xs)"
  by (auto simp: splice_insert_def Let_def dest: in_set_takeD in_set_dropD)





lemma p_id_merge: "p_id (merge_quantity k n item) = p_id item"
  by (simp add: merge_quantity_def)

lemma merge_map_ids: "map p_id (map (merge_quantity k n) xs) = map p_id xs"
  by (simp add: o_def p_id_merge)

lemma find_None_in_cart:
  "(find (\<lambda>item. p_id item = k) (cartItems s) = None) = (\<not> in_cart k s)"
  by (auto simp: find_None_iff in_cart_def)

lemma find_Some_in_cart:
  "find (\<lambda>item. p_id item = k) (cartItems s) = Some f \<Longrightarrow>
     in_cart k s \<and> f \<in> set (cartItems s) \<and> p_id f = k"
  by (auto simp: find_Some_iff in_cart_def)

lemma in_cart_find:
  assumes "in_cart k s"
  obtains f where "find (\<lambda>item. p_id item = k) (cartItems s) = Some f"
  using assms find_None_in_cart [of k s]
  by (cases "find (\<lambda>item. p_id item = k) (cartItems s)") auto

lemma onAdd_merge:
  assumes "in_cart (composite_key p) s"
  shows "onAdd s p q =
    (s\<lparr>totalPrice := totalPrice s + p_price p * q,
       totalQuantities := totalQuantities s + q,
       cartItems := map (merge_quantity (composite_key p) q) (cartItems s),
       toasts := toasts s @ [toast_text (qty s) p]\<rparr>, p)"
proof -
  obtain f where "find (\<lambda>item. p_id item = composite_key p) (cartItems s) = Some f"
    using assms by (rule in_cart_find)
  then show ?thesis
    by (simp add: onAdd_def composite_key_def Let_def merge_quantity_def[abs_def])
qed

lemma onAdd_insert:
  assumes "\<not> in_cart (composite_key p) s"
  shows "onAdd s p q =
    (s\<lparr>totalPrice := totalPrice s + p_price p * q,
       totalQuantities := totalQuantities s + q,
       cartItems := cartItems s @ [p\<lparr>p_quantity := q, p_id := composite_key p\<rparr>],
       toasts := toasts s @ [toast_text (qty s) (p\<lparr>p_quantity := q, p_id := composite_key p\<rparr>)]\<rparr>,
     p\<lparr>p_quantity := q, p_id := composite_key p\<rparr>)"
proof -
  have "find (\<lambda>item. p_id item = composite_key p) (cartItems s) = None"
    using assms find_None_in_cart by simp
  then show ?thesis
    by (simp add: onAdd_def composite_key_def Let_def)
qed


lemma onRemove_absent: "\<not> in_cart (p_id p) s \<Longrightarrow> onRemove s p = s"
  by (simp add: onRemove_def find_None_in_cart [symmetric])

lemma onRemove_present:
  "find (\<lambda>item. p_id item = p_id p) (cartItems s) = Some f \<Longrightarrow>
   onRemove s p =
     s\<lparr>totalPrice := totalPrice s - p_price f * p_quantity f,
       totalQuantities := totalQuantities s - p_quantity f,
       cartItems := filter (\<lambda>item. p_id item \<noteq> p_id p) (cartItems s)\<rparr>"
  by (simp add: onRemove_def Let_def)

lemma toggle_absent: "\<not> in_cart i s \<Longrightarrow> toggleCartItemQuanitity s i v = s"
  by (simp add: toggleCartItemQuanitity_def find_None_in_cart [symmetric])

lemma toggle_Inc:
  "find (\<lambda>item. p_id item = i) (cartItems s) = Some f \<Longrightarrow>
   toggleCartItemQuanitity s i Inc =
     s\<lparr>cartItems := reinsert (cartItems s) i (f\<lparr>p_quantity := p_quantity f + 1\<rparr>),
       totalPrice := totalPrice s + p_price f,
       totalQuantities := totalQuantities s + 1\<rparr>"
  by (simp add: toggleCartItemQuanitity_def Let_def reinsert_def)

lemma toggle_Dec:
  "find (\<lambda>item. p_id item = i) (cartItems s) = Some f \<Longrightarrow>
   toggleCartItemQuanitity s i Dec =
     (if 1 < p_quantity f
      then s\<lparr>cartItems := reinsert (cartItems s) i (f\<lparr>p_quantity := p_quantity f - 1\<rparr>),
             totalPrice := totalPrice s - p_price f,
             totalQuantities := totalQuantities s - 1\<rparr>
      else s)"
  by (simp add: toggleCartItemQuanitity_def Let_def reinsert_def)

lemma apply_op_distinct: "ids_distinct s \<Longrightarrow> ids_distinct (apply_op s op)"
proof (cases op)
  case (Add p q)
  assume d: "ids_distinct s"
  show ?thesis
  proof (cases "in_cart (composite_key p) s")
    case True
    with d Add show ?thesis by (simp add: onAdd_merge ids_distinct_def o_def p_id_merge)
  next
    case False
    with d Add show ?thesis by (simp add: onAdd_insert ids_distinct_def in_cart_def)
  qed
next
  case (Remove p)
  assume d: "ids_distinct s"
  show ?thesis
  proof (cases "find (\<lambda>item. p_id item = p_id p) (cartItems s)")
    case None
    with d Remove show ?thesis by (simp add: onRemove_def)
  next
    case (Some f)
    with d Remove show ?thesis
      by (simp add: onRemove_present ids_distinct_def distinct_map_filter)
  qed
next
  case (Toggle i v)
  assume d: "ids_distinct s"
  show ?thesis
  proof (cases "find (\<lambda>item. p_id item = i) (cartItems s)")
    case None
    with d Toggle show ?thesis by (simp add: toggleCartItemQuanitity_def)
  next
    case (Some f)
    then have idf: "p_id f = i" using find_Some_in_cart by blast
    have "map p_id (reinsert (cartItems s) i (f\<lparr>p_quantity := n\<rparr>)) = map p_id (cartItems s)" for n
      unfolding reinsert_def using d Some idf
      by (intro reinsert_map_ids) (simp_all add: ids_distinct_def)
    with d Some Toggle show ?thesis
      by (cases v) (simp_all add: toggle_Inc toggle_Dec ids_distinct_def)
  qed
qed (simp_all add: ids_distinct_def incQty_def decQty_def)



lemma run_ops_distinct: "ids_distinct s \<Longrightarrow> ids_distinct (run_ops s ops)"
  by (induction ops arbitrary: s) (simp_all add: apply_op_distinct)




subsection \<open>Decimal rendering is injective\<close>

lemma digits_nonempty: "digits_of_nat n \<noteq> []"
  by (subst digits_of_nat.simps) simp

lemma digit_char_inj:
  assumes "a < 10" and "b < 10" and "char_of (48 + a :: nat) = char_of (48 + b :: nat)"
  shows "a = b"
proof -
  from assms(3) have "of_char (char_of (48 + a)) = (of_char (char_of (48 + b)) :: nat)" by simp
  with assms(1,2) show ?thesis by simp
qed

lemma digits_inj: "digits_of_nat m = digits_of_nat n \<Longrightarrow> m = n"
proof (induction m arbitrary: n rule: digits_of_nat.induct)
  case (1 m)
  show ?case
  proof (cases "m < 10")
    case True
    show ?thesis
    proof (cases "n < 10")
      case n: True
      from "1.prems" True n have "char_of (48 + m) = char_of (48 + n)"
        by (simp add: digits_of_nat.simps [of m] digits_of_nat.simps [of n])
      with True n show ?thesis by (rule digit_char_inj)
    next
      case False
      with "1.prems" True have "digits_of_nat (n div 10) = []"
        by (simp add: digits_of_nat.simps [of m] digits_of_nat.simps [of n])
      then show ?thesis by (simp add: digits_nonempty)
    qed
  next
    case False
    show ?thesis
    proof (cases "n < 10")
      case True
      with "1.prems" False have "digits_of_nat (m div 10) = []"
        by (simp add: digits_of_nat.simps [of m] digits_of_nat.simps [of n])
      then show ?thesis by (simp add: digits_nonempty)
    next
      case n: False
      from "1.prems" False n
      have a: "digits_of_nat (m div 10) = digits_of_nat (n div 10)"
        and b: "char_of (48 + m mod 10) = char_of (48 + n mod 10)"
        by (simp_all add: digits_of_nat.simps [of m] digits_of_nat.simps [of n])
      from a have "m div 10 = n div 10" using "1.IH" False by simp
      moreover from b have "m mod 10 = n mod 10" by (intro digit_char_inj) simp_all
      ultimately show ?thesis by (metis div_mult_mod_eq)
    qed
  qed
qed

lemma digits_no_minus: "CHR ''-'' \<notin> set (digits_of_nat n)"
proof (induction n rule: digits_of_nat.induct)
  case (1 n)
  have d: "k < 10 \<Longrightarrow> CHR ''-'' \<noteq> char_of (48 + k)" for k :: nat
  proof
    assume "k < 10" and "CHR ''-'' = char_of (48 + k)"
    then have "of_char (CHR ''-'') = (of_char (char_of (48 + k)) :: nat)" by simp
    with \<open>k < 10\<close> show False by simp
  qed
  show ?case
  proof (cases "n < 10")
    case True
    then show ?thesis using d [of n] by (simp add: digits_of_nat.simps [of n])
  next
    case False
    then show ?thesis using "1.IH" d [of "n mod 10"] by (simp add: digits_of_nat.simps [of n])
  qed
qed

lemma number_to_string_inj: "number_to_string a = number_to_string b \<Longrightarrow> a = b"
proof -
  assume eq: "number_to_string a = number_to_string b"
  have neg: "digits_of_nat m \<noteq> CHR ''-'' # digits_of_nat n" for m n
    using digits_no_minus [of m] by (metis list.set_intros(1))
  show "a = b"
  proof (cases "a < 0")
    case True
    show ?thesis
    proof (cases "b < 0")
      case b: True
      with eq True have "nat (- a) = nat (- b)" by (simp add: number_to_string_def digits_inj)
      with True b show ?thesis by simp
    next
      case False
      with eq True show ?thesis using neg [of "nat b" "nat (- a)"] by (simp add: number_to_string_def)
    qed
  next
    case False
    show ?thesis
    proof (cases "b < 0")
      case True
      with eq False show ?thesis using neg [of "nat a" "nat (- b)"] by (simp add: number_to_string_def)
    next
      case b: False
      with eq False have "nat a = nat b" by (simp add: number_to_string_def digits_inj)
      with False b show ?thesis by simp
    qed
  qed
qed

lemma toast_text_inj: "toast_text a p = toast_text b p \<Longrightarrow> a = b"
  by (simp add: toast_text_def number_to_string_inj)

lemma find_merge:
  "find (\<lambda>item. p_id item = k) (map (merge_quantity j n) xs)
     = map_option (merge_quantity j n) (find (\<lambda>item. p_id item = k) xs)"
  by (induction xs) (simp_all add: p_id_merge)

lemma find_snoc:
  "find P (xs @ [y]) = (case find P xs of None \<Rightarrow> (if P y then Some y else None) | Some x \<Rightarrow> Some x)"
  by (induction xs) simp_all

lemma stored_quantity_onAdd:
  "stored_quantity (fst (onAdd s p q)) k
     = stored_quantity s k + (if composite_key p = k then q else 0)"
proof (cases "in_cart (composite_key p) s")
  case True
  show ?thesis
  proof (cases "find (\<lambda>item. p_id item = k) (cartItems s)")
    case None
    then have "\<not> in_cart k s" by (simp add: find_None_in_cart)
    with True have "composite_key p \<noteq> k" by auto
    with True None show ?thesis
      by (simp add: onAdd_merge stored_quantity_def find_merge)
  next
    case (Some f)
    then have "p_id f = k" using find_Some_in_cart by blast
    with True Some show ?thesis
      by (simp add: onAdd_merge stored_quantity_def find_merge merge_quantity_def)
  qed
next
  case False
  show ?thesis
  proof (cases "find (\<lambda>item. p_id item = k) (cartItems s)")
    case None
    with False show ?thesis
      by (simp add: onAdd_insert stored_quantity_def find_snoc)
  next
    case (Some f)
    then have "in_cart k s" using find_Some_in_cart by blast
    with False have "composite_key p \<noteq> k" by auto
    with False Some show ?thesis
      by (simp add: onAdd_insert stored_quantity_def find_snoc)
  qed
qed

lemma stored_quantity_adds:
  "stored_quantity (run_ops s (map (\<lambda>(p, q). Add p q) adds)) k
     = stored_quantity s k + added_under k adds"
  by (induction adds arbitrary: s) (auto simp: stored_quantity_onAdd added_under_def)

lemma stored_quantity_item:
  assumes "ids_distinct s" and "item \<in> set (cartItems s)"
  shows "stored_quantity s (p_id item) = p_quantity item"
proof -
  have "distinct (map p_id xs) \<Longrightarrow> item \<in> set xs \<Longrightarrow>
          find (\<lambda>x. p_id x = p_id item) xs = Some item" for xs
    by (induction xs) (auto simp: rev_image_eqI)
  with assms show ?thesis by (simp add: stored_quantity_def ids_distinct_def)
qed

lemma reinsert_positive:
  assumes "list_all (\<lambda>item. 1 \<le> p_quantity item) xs" and "1 \<le> p_quantity y"
  shows "list_all (\<lambda>item. 1 \<le> p_quantity item) (reinsert xs i y)"
  using assms reinsert_set [of i xs _ y] unfolding reinsert_def list_all_iff by blast

lemma apply_op_positive:
  assumes pos: "quantities_positive s" and a: "adds_at_least_one s op"
  shows "quantities_positive (apply_op s op)"
proof (cases op)
  case (Add p q)
  with a have q: "1 \<le> q" by simp
  show ?thesis
  proof (cases "in_cart (composite_key p) s")
    case True
    with pos q Add show ?thesis
      by (auto simp: onAdd_merge quantities_positive_def list_all_iff merge_quantity_def)
  next
    case False
    with pos q Add show ?thesis
      by (simp add: onAdd_insert quantities_positive_def)
  qed
next
  case (Remove p)
  with pos show ?thesis
    by (cases "find (\<lambda>item. p_id item = p_id p) (cartItems s)")
       (auto simp: onRemove_def onRemove_present quantities_positive_def list_all_iff)
next
  case (Toggle i v)
  show ?thesis
  proof (cases "find (\<lambda>item. p_id item = i) (cartItems s)")
    case None
    with pos Toggle show ?thesis by (simp add: toggleCartItemQuanitity_def)
  next
    case (Some f)
    then have "f \<in> set (cartItems s)" using find_Some_in_cart by blast
    with pos have f1: "1 \<le> p_quantity f" by (simp add: quantities_positive_def list_all_iff)
    have up: "quantities_positive
        (s\<lparr>cartItems := reinsert (cartItems s) i (f\<lparr>p_quantity := p_quantity f + 1\<rparr>),
           totalPrice := a, totalQuantities := b\<rparr>)" for a b
      using pos f1 by (simp add: quantities_positive_def reinsert_positive)
    have down: "1 < p_quantity f \<Longrightarrow> quantities_positive
        (s\<lparr>cartItems := reinsert (cartItems s) i (f\<lparr>p_quantity := p_quantity f - 1\<rparr>),
           totalPrice := a, totalQuantities := b\<rparr>)" for a b
      using pos by (simp add: quantities_positive_def reinsert_positive)
    from pos Some Toggle up down show ?thesis
      by (cases v) (simp_all add: toggle_Inc toggle_Dec)
  qed
qed (use pos in \<open>simp_all add: quantities_positive_def incQty_def decQty_def\<close>)

lemma run_ops_positive:
  "quantities_positive s \<Longrightarrow> holds_along adds_at_least_one s ops \<Longrightarrow>
     quantities_positive (run_ops s ops)"
  by (induction ops arbitrary: s) (simp_all add: apply_op_positive)

lemma toggle_ids:
  "set (map p_id (cartItems (toggleCartItemQuanitity s i v))) = set (map p_id (cartItems s))"
proof (cases "find (\<lambda>item. p_id item = i) (cartItems s)")
  case None
  then show ?thesis by (simp add: toggleCartItemQuanitity_def)
next
  case (Some f)
  then have idf: "p_id f = i" using find_Some_in_cart by blast
  have "set (map p_id (reinsert (cartItems s) i (f\<lparr>p_quantity := n\<rparr>)))
          = set (map p_id (cartItems s))" for n
    unfolding reinsert_def using Some idf by (intro reinsert_ids) simp_all
  with Some show ?thesis
    by (cases v) (simp_all add: toggle_Inc toggle_Dec del: set_map)
qed

lemma toggle_map_ids:
  assumes "ids_distinct s"
  shows "map p_id (cartItems (toggleCartItemQuanitity s i v)) = map p_id (cartItems s)"
proof (cases "find (\<lambda>item. p_id item = i) (cartItems s)")
  case None
  then show ?thesis by (simp add: toggleCartItemQuanitity_def)
next
  case (Some f)
  then have idf: "p_id f = i" using find_Some_in_cart by blast
  have "map p_id (reinsert (cartItems s) i (f\<lparr>p_quantity := n\<rparr>)) = map p_id (cartItems s)" for n
    unfolding reinsert_def using assms Some idf
    by (intro reinsert_map_ids) (simp_all add: ids_distinct_def)
  with Some show ?thesis
    by (cases v) (simp_all add: toggle_Inc toggle_Dec)
qed

lemma add_keeps_ids:
  "set (map p_id (cartItems s)) \<subseteq> set (map p_id (cartItems (fst (onAdd s p q))))"
  by (cases "in_cart (composite_key p) s") (auto simp: onAdd_merge onAdd_insert p_id_merge)

lemma key_not_own_suffix: "xs @ ''-'' @ w \<noteq> xs"
  by simp

section \<open>Properties of the catalogue\<close>

lemma prefix_take: "(take (length needle) hay = needle) = (\<exists>ss. hay = needle @ ss)"
proof
  assume "take (length needle) hay = needle"
  then have "hay = needle @ drop (length needle) hay" by (metis append_take_drop_id)
  then show "\<exists>ss. hay = needle @ ss" ..
next
  assume "\<exists>ss. hay = needle @ ss"
  then show "take (length needle) hay = needle" by auto
qed

lemma includes_str_iff: "includes_str hay needle = (\<exists>ps ss. hay = ps @ needle @ ss)"
proof (induction hay)
  case Nil
  then show ?case by simp
next
  case (Cons h hs)
  have "(\<exists>ps ss. h # hs = ps @ needle @ ss)
      = ((\<exists>ss. h # hs = needle @ ss) \<or> (\<exists>ps ss. hs = ps @ needle @ ss))"
  proof
    assume "\<exists>ps ss. h # hs = ps @ needle @ ss"
    then obtain ps ss where e: "h # hs = ps @ needle @ ss" by blast
    show "(\<exists>ss. h # hs = needle @ ss) \<or> (\<exists>ps ss. hs = ps @ needle @ ss)"
    proof (cases ps)
      case Nil
      with e show ?thesis by auto
    next
      case (Cons p ps')
      with e have "hs = ps' @ needle @ ss" by simp
      then show ?thesis by blast
    qed
  next
    assume "(\<exists>ss. h # hs = needle @ ss) \<or> (\<exists>ps ss. hs = ps @ needle @ ss)"
    then show "\<exists>ps ss. h # hs = ps @ needle @ ss"
    proof
      assume "\<exists>ss. h # hs = needle @ ss"
      then obtain ss where "h # hs = [] @ needle @ ss" by auto
      then show ?thesis by blast
    next
      assume "\<exists>ps ss. hs = ps @ needle @ ss"
      then obtain ps ss where "h # hs = (h # ps) @ needle @ ss" by auto
      then show ?thesis by blast
    qed
  qed
  with Cons.IH show ?case using prefix_take [of needle "h # hs"] by simp
qed

lemma includes_lower_iff:
  "includes_str (toLowerCase text) (toLowerCase term) = contains_ignoring_case text term"
proof
  assume "includes_str (toLowerCase text) (toLowerCase term)"
  then obtain ps ss where "map lower_char text = ps @ toLowerCase term @ ss"
    by (auto simp: includes_str_iff toLowerCase_def)
  then obtain us vs where u: "text = us @ vs" "ps = map lower_char us"
      "toLowerCase term @ ss = map lower_char vs"
    by (auto simp: map_eq_append_conv)
  from u(3) obtain part after where "vs = part @ after" "toLowerCase term = map lower_char part"
    by (metis append_eq_map_conv)
  with u(1) show "contains_ignoring_case text term"
    by (auto simp: contains_ignoring_case_def toLowerCase_def)
next
  assume "contains_ignoring_case text term"
  then obtain before part after where "text = before @ part @ after"
      "toLowerCase part = toLowerCase term"
    by (auto simp: contains_ignoring_case_def)
  then have "toLowerCase text = toLowerCase before @ toLowerCase term @ toLowerCase after"
    by (simp add: toLowerCase_def)
  then show "includes_str (toLowerCase text) (toLowerCase term)"
    unfolding includes_str_iff by blast
qed

lemma matches_spec:
  "(matchesSearch q article \<and> matchesCategory c article) = spec_matches q c article"
  by (simp add: matchesSearch_def matchesCategory_def spec_matches_def includes_lower_iff
        list_ex_iff)

lemma includes_empty: "includes_str hay []"
  by (cases hay) simp_all

lemma matchesSearch_empty: "matchesSearch [] article"
  by (simp add: matchesSearch_def toLowerCase_def includes_empty)

lemma total_pages_div:
  "totalFilteredPages s = (int (length (filteredArticles s)) + 11) div 12"
proof -
  have "totalFilteredPages s = - (- int (length (filteredArticles s)) div 12)"
    unfolding totalFilteredPages_def itemsPerPage_def
    using ceiling_divide_eq_div [of "int (length (filteredArticles s))" 12] by simp
  then show ?thesis by linarith
qed

lemma slice_page:
  assumes "0 \<le> start"
  shows "slice xs start (start + 12) = take 12 (drop (nat start) xs)"
proof (cases "start \<le> int (length xs)")
  case True
  with assms have "slice xs start (start + 12)
      = take (nat (min (start + 12) (int (length xs)) - start)) (drop (nat start) xs)"
    by (simp add: slice_def Let_def min_def max_def)
  also have "\<dots> = take 12 (drop (nat start) xs)"
  proof (cases "start + 12 \<le> int (length xs)")
    case True
    then show ?thesis by (simp add: min_def)
  next
    case False
    with True assms have "length (drop (nat start) xs) \<le> 12"
      "nat (min (start + 12) (int (length xs)) - start) = length (drop (nat start) xs)"
      by (simp_all add: min_def nat_diff_distrib)
    then show ?thesis by simp
  qed
  finally show ?thesis .
next
  case False
  with assms show ?thesis by (simp add: slice_def Let_def min_def max_def)
qed

lemma filtered_frame [simp]:
  "filteredArticles (s\<lparr>currentPage := n\<rparr>) = filteredArticles s"
  "filteredArticles (s\<lparr>loading := b\<rparr>) = filteredArticles s"
  by (simp_all add: filteredArticles_def allArticles_def)

lemma total_frame [simp]:
  "totalFilteredPages (s\<lparr>currentPage := n\<rparr>) = totalFilteredPages s"
  "totalFilteredPages (s\<lparr>loading := b\<rparr>) = totalFilteredPages s"
  by (simp_all add: totalFilteredPages_def)

lemma total_nonneg: "0 \<le> totalFilteredPages s"
  by (simp add: total_pages_div)

lemma setSearchQuery_same: "setSearchQuery s (searchQuery s) = s"
  by (simp add: setSearchQuery_def reset_effect_def)

lemma setSearchQuery_new:
  "q \<noteq> searchQuery s \<Longrightarrow> setSearchQuery s q = s\<lparr>searchQuery := q, currentPage := 1\<rparr>"
  by (simp add: setSearchQuery_def reset_effect_def)

lemma setSelectedCategory_same: "setSelectedCategory s (selectedCategory s) = s"
  by (simp add: setSelectedCategory_def reset_effect_def)

lemma setSelectedCategory_new:
  "c \<noteq> selectedCategory s \<Longrightarrow>
     setSelectedCategory s c = s\<lparr>selectedCategory := c, currentPage := 1\<rparr>"
  by (simp add: setSelectedCategory_def reset_effect_def)

lemma fetch_state:
  "fst (fetchPSEOPages formatDate s outcome)
     = (case outcome of
          Pages pages \<Rightarrow> s\<lparr>pseoPages := map (convertPSEOToArticle formatDate) pages, loading := False\<rparr>
        | _ \<Rightarrow> s\<lparr>loading := False\<rparr>)"
  by (simp add: fetchPSEOPages_def Let_def split: fetch_outcome.splits)

lemma step_settled:
  assumes "page_settled s"
  shows "page_settled (step formatDate s e)"
proof (cases "offered s e")
  case False
  with assms show ?thesis by (simp add: step_def)
next
  case True
  note inv = assms [unfolded page_settled_def]
  show ?thesis
  proof (cases e)
    case (FetchSettled outcome)
    with True have "currentPage s = 1" using inv by simp
    with FetchSettled True show ?thesis
      by (simp add: step_def fetch_state page_settled_def split: fetch_outcome.splits)
  next
    case (SearchInput q)
    with True assms show ?thesis
      by (cases "q = searchQuery s")
         (simp_all add: step_def setSearchQuery_same setSearchQuery_new page_settled_def)
  next
    case (CategoryClick c)
    with True assms show ?thesis
      by (cases "c = selectedCategory s")
         (simp_all add: step_def setSelectedCategory_same setSelectedCategory_new page_settled_def)
  next
    case PreviousClick
    with True inv show ?thesis
      by (auto simp: step_def previousPage_def page_settled_def)
  next
    case NextClick
    with True inv show ?thesis
      by (auto simp: step_def nextPage_def page_settled_def)
  next
    case (PageClick n)
    with True inv show ?thesis
      by (auto simp: step_def goToPage_def page_settled_def)
  next
    case LastPageClick
    with True inv show ?thesis
      by (auto simp: step_def goToPage_def page_settled_def)
  qed
qed

lemma run_events_settled:
  "page_settled s \<Longrightarrow> page_settled (run_events formatDate s es)"
  by (induction es arbitrary: s) (simp_all add: step_settled)

lemma settled_in_range: "page_settled s \<Longrightarrow> page_in_range s"
  by (auto simp: page_settled_def page_in_range_def)

lemma initial_settled: "page_settled initial_catalog"
  by (simp add: page_settled_def initial_catalog_def)

lemma paginated_page:
  "1 \<le> currentPage s \<Longrightarrow>
     paginatedArticles s = take 12 (drop (nat ((currentPage s - 1) * 12)) (filteredArticles s))"
proof -
  assume "1 \<le> currentPage s"
  then have "0 \<le> (currentPage s - 1) * 12" by simp
  then show ?thesis
    unfolding paginatedArticles_def startIndex_def itemsPerPage_def by (rule slice_page)
qed

lemma navigation_in_range:
  assumes "is_navigation e" and "offered s e" and "page_in_range s"
  shows "1 \<le> currentPage (on_event formatDate s e)
         \<and> currentPage (on_event formatDate s e) \<le> totalFilteredPages (on_event formatDate s e)"
  using assms
  by (cases e) (auto simp: page_in_range_def previousPage_def nextPage_def goToPage_def)

lemma length_staticArticles: "length staticArticles = 15"
  by (simp add: staticArticles_def)

section \<open>The claims about the cart store\<close>




text \<open>
  Claim C2. An add whose composite key is already in the cart leaves the number of line
  items and their identifiers as they are and raises the quantity of the item under that
  key by the quantity added. From the empty cart, after any sequence of adds, no two line
  items share an identifier and every line item holds the sum of all quantities added
  under its key. The example of the specification: adding two of product \<open>p1\<close>, weight
  \<open>500g\<close>, price 100, gives one line item \<open>p1-500g\<close> of quantity 2 with totals 200 and 2;
  adding three more of the same product and weight gives one item of quantity 5 with
  totals 500 and 5.
\<close>

theorem add_existing_key_merges:
  "(in_cart (composite_key product) s \<longrightarrow>
      length (cartItems (fst (onAdd s product quantity))) = length (cartItems s)
      \<and> map p_id (cartItems (fst (onAdd s product quantity))) = map p_id (cartItems s)
      \<and> (\<forall>n < length (cartItems s).
            p_quantity (cartItems (fst (onAdd s product quantity)) ! n)
              = p_quantity (cartItems s ! n)
                + (if p_id (cartItems s ! n) = composite_key product then quantity else 0)))
   \<and> distinct (map p_id (cartItems (run_ops initial_cart (map (\<lambda>(p, q). Add p q) adds))))
   \<and> (\<forall>item \<in> set (cartItems (run_ops initial_cart (map (\<lambda>(p, q). Add p q) adds))).
         p_quantity item = added_under (p_id item) adds)
   \<and> (let p = \<lparr>p_id = ''p1'', p_name = nm, p_price = 100, p_quantity = q0, p_weight = ''500g'',
                 p_image = im\<rparr>;
           s1 = fst (onAdd initial_cart p 2);
           s2 = fst (onAdd s1 p 3)
       in cartItems s1 = [p\<lparr>p_id := ''p1-500g'', p_quantity := 2\<rparr>]
          \<and> totalPrice s1 = 200 \<and> totalQuantities s1 = 2
          \<and> cartItems s2 = [p\<lparr>p_id := ''p1-500g'', p_quantity := 5\<rparr>]
          \<and> totalPrice s2 = 500 \<and> totalQuantities s2 = 5)"
proof -
  let ?s = "run_ops initial_cart (map (\<lambda>(p, q). Add p q) adds)"
  have d0: "ids_distinct initial_cart" by (simp add: ids_distinct_def initial_cart_def)
  have z: "stored_quantity initial_cart k = 0" for k
    by (simp add: stored_quantity_def initial_cart_def)
  have merge: "in_cart (composite_key product) s \<longrightarrow>
      length (cartItems (fst (onAdd s product quantity))) = length (cartItems s)
      \<and> map p_id (cartItems (fst (onAdd s product quantity))) = map p_id (cartItems s)
      \<and> (\<forall>n < length (cartItems s).
            p_quantity (cartItems (fst (onAdd s product quantity)) ! n)
              = p_quantity (cartItems s ! n)
                + (if p_id (cartItems s ! n) = composite_key product then quantity else 0))"
    by (auto simp: onAdd_merge o_def p_id_merge merge_quantity_def)
  have d: "ids_distinct ?s" using d0 by (rule run_ops_distinct)
  then have dist: "distinct (map p_id (cartItems ?s))" by (simp add: ids_distinct_def)
  have sums: "\<forall>item \<in> set (cartItems ?s). p_quantity item = added_under (p_id item) adds"
  proof
    fix item assume "item \<in> set (cartItems ?s)"
    with d have "stored_quantity ?s (p_id item) = p_quantity item" by (rule stored_quantity_item)
    then show "p_quantity item = added_under (p_id item) adds"
      by (simp add: stored_quantity_adds z)
  qed
  have ex: "(let p = \<lparr>p_id = ''p1'', p_name = nm, p_price = 100, p_quantity = q0, p_weight = ''500g'',
                 p_image = im\<rparr>;
           s1 = fst (onAdd initial_cart p 2);
           s2 = fst (onAdd s1 p 3)
       in cartItems s1 = [p\<lparr>p_id := ''p1-500g'', p_quantity := 2\<rparr>]
          \<and> totalPrice s1 = 200 \<and> totalQuantities s1 = 2
          \<and> cartItems s2 = [p\<lparr>p_id := ''p1-500g'', p_quantity := 5\<rparr>]
          \<and> totalPrice s2 = 500 \<and> totalQuantities s2 = 5)"
    by (simp add: onAdd_def initial_cart_def Let_def)
  from merge dist sums ex show ?thesis by blast
qed

theorem add_existing_key_merges_witness:
  "in_cart (composite_key (sample_product ''p1'' 100 ''500g''))
     (fst (onAdd initial_cart (sample_product ''p1'' 100 ''500g'') 2))
   \<and> map p_quantity (cartItems (fst (onAdd (fst (onAdd initial_cart (sample_product ''p1'' 100 ''500g'') 2))
        (sample_product ''p1'' 100 ''500g'') 3))) = [5]
   \<and> length (cartItems (fst (onAdd (fst (onAdd initial_cart (sample_product ''p1'' 100 ''500g'') 2))
        (sample_product ''p1'' 100 ''500g'') 3))) = 1"
proof -
  let ?p = "sample_product ''p1'' 100 ''500g''"
  let ?s = "fst (onAdd initial_cart ?p 2)"
  have h: "in_cart (composite_key ?p) ?s" by code_simp
  have l: "length (cartItems ?s) = 1" by code_simp
  have v: "map p_quantity (cartItems (fst (onAdd ?s ?p 3))) = [5]" by code_simp
  from h l v add_existing_key_merges [of ?p ?s 3 "[]"] show ?thesis by simp
qed

text \<open>
  Claim C3. When the identifier names no line item, \<open>onRemove\<close> and
  \<open>toggleCartItemQuanitity\<close> (in either direction) return the state they were given:
  line items, both totals, every other state cell and the list of emitted notifications are
  unchanged, and neither handler has a failing branch.
\<close>

theorem unknown_id_is_noop:
  "(\<not> in_cart (p_id product) s \<longrightarrow> onRemove s product = s)
   \<and> (\<not> in_cart i s \<longrightarrow> toggleCartItemQuanitity s i v = s)"
  by (simp add: onRemove_absent toggle_absent)

theorem unknown_id_is_noop_witness:
  "\<not> in_cart (p_id (sample_product ''p9-1kg'' 40 ''1kg''))
       (fst (onAdd initial_cart (sample_product ''p1'' 100 ''500g'') 2))
   \<and> \<not> in_cart ''p9-1kg'' (fst (onAdd initial_cart (sample_product ''p1'' 100 ''500g'') 2))
   \<and> onRemove (fst (onAdd initial_cart (sample_product ''p1'' 100 ''500g'') 2))
        (sample_product ''p9-1kg'' 40 ''1kg'')
      = fst (onAdd initial_cart (sample_product ''p1'' 100 ''500g'') 2)
   \<and> toggleCartItemQuanitity (fst (onAdd initial_cart (sample_product ''p1'' 100 ''500g'') 2))
        ''p9-1kg'' Dec
      = fst (onAdd initial_cart (sample_product ''p1'' 100 ''500g'') 2)"
proof -
  let ?s = "fst (onAdd initial_cart (sample_product ''p1'' 100 ''500g'') 2)"
  have a: "\<not> in_cart (p_id (sample_product ''p9-1kg'' 40 ''1kg'')) ?s" by code_simp
  have b: "\<not> in_cart ''p9-1kg'' ?s" by code_simp
  from a b unknown_id_is_noop [of "sample_product ''p9-1kg'' 40 ''1kg''" ?s "''p9-1kg''" Dec]
  show ?thesis by blast
qed

text \<open>
  Claim C9. An add whose composite key is already in the cart changes, in the line item
  under that key, the quantity only: identifier, name, price, weight and image stay as
  stored, whatever the product object of the add holds. Every other line item is
  unchanged in all fields.
\<close>

theorem add_existing_key_frame:
  "in_cart (composite_key product) s \<Longrightarrow>
     length (cartItems (fst (onAdd s product quantity))) = length (cartItems s)
     \<and> (\<forall>n < length (cartItems s).
           (p_id (cartItems s ! n) = composite_key product \<longrightarrow>
              cartItems (fst (onAdd s product quantity)) ! n
                = (cartItems s ! n)\<lparr>p_quantity := p_quantity (cartItems s ! n) + quantity\<rparr>
              \<and> p_id (cartItems (fst (onAdd s product quantity)) ! n) = p_id (cartItems s ! n)
              \<and> p_name (cartItems (fst (onAdd s product quantity)) ! n) = p_name (cartItems s ! n)
              \<and> p_price (cartItems (fst (onAdd s product quantity)) ! n) = p_price (cartItems s ! n)
              \<and> p_weight (cartItems (fst (onAdd s product quantity)) ! n) = p_weight (cartItems s ! n)
              \<and> p_image (cartItems (fst (onAdd s product quantity)) ! n) = p_image (cartItems s ! n))
           \<and> (p_id (cartItems s ! n) \<noteq> composite_key product \<longrightarrow>
                cartItems (fst (onAdd s product quantity)) ! n = cartItems s ! n))"
  by (auto simp: onAdd_merge merge_quantity_def)

theorem add_existing_key_frame_witness:
  "in_cart (composite_key (sample_product ''p1'' 250 ''500g''))
     (run_ops initial_cart
        [Add (sample_product ''p2'' 40 ''1kg'') 1, Add (sample_product ''p1'' 100 ''500g'') 2])
   \<and> cartItems (fst (onAdd (run_ops initial_cart
        [Add (sample_product ''p2'' 40 ''1kg'') 1, Add (sample_product ''p1'' 100 ''500g'') 2])
        (sample_product ''p1'' 250 ''500g'') 3))
      = [(sample_product ''p2-1kg'' 40 ''1kg'')\<lparr>p_quantity := 1\<rparr>,
         (sample_product ''p1-500g'' 100 ''500g'')\<lparr>p_quantity := 5\<rparr>]"
proof -
  define s where "s = run_ops initial_cart
        [Add (sample_product ''p2'' 40 ''1kg'') 1, Add (sample_product ''p1'' 100 ''500g'') 2]"
  define p where "p = sample_product ''p1'' 250 ''500g''"
  define a where "a = (sample_product ''p2-1kg'' 40 ''1kg'')\<lparr>p_quantity := 1\<rparr>"
  define b where "b = (sample_product ''p1-500g'' 100 ''500g'')\<lparr>p_quantity := 2\<rparr>"
  have h: "in_cart (composite_key p) s" unfolding s_def p_def by code_simp
  have l: "cartItems s = [a, b]" unfolding s_def a_def b_def by code_simp
  have k: "p_id a \<noteq> composite_key p" "p_id b = composite_key p"
    unfolding a_def b_def p_def by code_simp+
  have "length (cartItems (fst (onAdd s p 3))) = 2
    \<and> cartItems (fst (onAdd s p 3)) ! 0 = a
    \<and> cartItems (fst (onAdd s p 3)) ! 1 = b\<lparr>p_quantity := p_quantity b + 3\<rparr>"
    using add_existing_key_frame [OF h, of 3] by (simp add: l k All_less_Suc numeral_2_eq_2)
  then have "cartItems (fst (onAdd s p 3)) = [a, b\<lparr>p_quantity := p_quantity b + 3\<rparr>]"
    by (intro nth_equalityI) (auto simp: less_Suc_eq numeral_2_eq_2)
  moreover have "b\<lparr>p_quantity := p_quantity b + 3\<rparr>
      = (sample_product ''p1-500g'' 100 ''500g'')\<lparr>p_quantity := 5\<rparr>"
    unfolding b_def by (simp add: sample_product_def)
  ultimately show ?thesis using h unfolding s_def p_def a_def by simp
qed

text \<open>
  Claim C4. If every line item has quantity at least 1, it is so again after any handler
  call, given that an add carries a quantity of at least 1; hence it holds in every state
  reached from the empty cart by such calls. Decrementing a line item whose quantity is 1
  returns the state unchanged. A quantity adjustment never changes which identifiers are in
  the cart (nor their order, in a cart without duplicate identifiers), and no handler other
  than \<open>onRemove\<close> takes an identifier out of the cart.
\<close>

theorem quantities_stay_positive:
  "(quantities_positive s \<and> adds_at_least_one s op \<longrightarrow> quantities_positive (apply_op s op))
   \<and> (holds_along adds_at_least_one initial_cart ops \<longrightarrow>
        quantities_positive (run_ops initial_cart ops))
   \<and> (find (\<lambda>item. p_id item = i) (cartItems s) = Some f \<and> p_quantity f = 1 \<longrightarrow>
        toggleCartItemQuanitity s i Dec = s)
   \<and> set (map p_id (cartItems (toggleCartItemQuanitity s i v))) = set (map p_id (cartItems s))
   \<and> (ids_distinct s \<longrightarrow>
        map p_id (cartItems (toggleCartItemQuanitity s i v)) = map p_id (cartItems s))
   \<and> ((\<forall>product. op \<noteq> Remove product) \<longrightarrow>
        set (map p_id (cartItems s)) \<subseteq> set (map p_id (cartItems (apply_op s op))))"
proof -
  have p0: "quantities_positive initial_cart"
    by (simp add: quantities_positive_def initial_cart_def)
  have keep: "(\<forall>product. op \<noteq> Remove product) \<longrightarrow>
        set (map p_id (cartItems s)) \<subseteq> set (map p_id (cartItems (apply_op s op)))"
    using add_keeps_ids toggle_ids
    by (cases op) (simp_all add: incQty_def decQty_def del: set_map)
  show ?thesis
    using apply_op_positive [of s op] run_ops_positive [OF p0, of ops] keep
      toggle_ids [of s i v] toggle_map_ids [of s i v]
    by (simp add: toggle_Dec del: set_map)
qed

theorem quantities_stay_positive_witness:
  "quantities_positive (run_ops initial_cart [Add (sample_product ''p1'' 100 ''500g'') 1])
   \<and> adds_at_least_one (run_ops initial_cart [Add (sample_product ''p1'' 100 ''500g'') 1])
        (Toggle ''p1-500g'' Dec)
   \<and> holds_along adds_at_least_one initial_cart
        [Add (sample_product ''p1'' 100 ''500g'') 1, Toggle ''p1-500g'' Dec]
   \<and> find (\<lambda>item. p_id item = ''p1-500g'')
        (cartItems (run_ops initial_cart [Add (sample_product ''p1'' 100 ''500g'') 1]))
      = Some ((sample_product ''p1-500g'' 100 ''500g'')\<lparr>p_quantity := 1\<rparr>)
   \<and> p_quantity ((sample_product ''p1-500g'' 100 ''500g'')\<lparr>p_quantity := 1\<rparr>) = 1
   \<and> ids_distinct (run_ops initial_cart [Add (sample_product ''p1'' 100 ''500g'') 1])
   \<and> (\<forall>product. Toggle ''p1-500g'' Dec \<noteq> Remove product)
   \<and> toggleCartItemQuanitity (run_ops initial_cart [Add (sample_product ''p1'' 100 ''500g'') 1])
        ''p1-500g'' Dec
      = run_ops initial_cart [Add (sample_product ''p1'' 100 ''500g'') 1]
   \<and> quantities_positive
        (run_ops initial_cart [Add (sample_product ''p1'' 100 ''500g'') 1, Toggle ''p1-500g'' Dec])
   \<and> map p_quantity (cartItems
        (run_ops initial_cart [Add (sample_product ''p1'' 100 ''500g'') 1, Toggle ''p1-500g'' Dec]))
      = [1]"
proof -
  define s where "s = run_ops initial_cart [Add (sample_product ''p1'' 100 ''500g'') 1]"
  define f where "f = (sample_product ''p1-500g'' 100 ''500g'')\<lparr>p_quantity := 1\<rparr>"
  define ops where "ops = [Add (sample_product ''p1'' 100 ''500g'') 1, Toggle ''p1-500g'' Dec]"
  have a: "quantities_positive s" unfolding s_def by code_simp
  have b: "adds_at_least_one s (Toggle ''p1-500g'' Dec)" by simp
  have c: "holds_along adds_at_least_one initial_cart ops" unfolding ops_def by code_simp
  have d: "find (\<lambda>item. p_id item = ''p1-500g'') (cartItems s) = Some f"
    unfolding s_def f_def by code_simp
  have e: "p_quantity f = 1" unfolding f_def by simp
  have g: "ids_distinct s" unfolding s_def by code_simp
  have h: "\<forall>product. Toggle ''p1-500g'' Dec \<noteq> Remove product" by simp
  have v: "map p_quantity (cartItems (run_ops initial_cart ops)) = [1]"
    unfolding ops_def by code_simp
  from a b c d e g h v
    quantities_stay_positive [of s "Toggle ''p1-500g'' Dec" ops "''p1-500g''" f Dec]
  show ?thesis unfolding s_def f_def ops_def by blast
qed

text \<open>
  Claim C5. The notification emitted by \<open>onAdd\<close> is the text made of the quantity
  selector \<open>qty\<close> of the state, the product name and the product weight; the quantity
  argument does not occur in it. When \<open>qty\<close> differs from the quantity argument, the
  number shown differs from the number added, and the message differs from the one that
  would report the quantity added. \<open>onAdd\<close> leaves the selector as it is.
\<close>

theorem add_toast_reports_selector:
  "toasts (fst (onAdd s product quantity))
     = toasts s @ [number_to_string (qty s) @ '' '' @ p_name product @ '' (''
                     @ p_weight product @ '') added to the cart.'']
   \<and> qty (fst (onAdd s product quantity)) = qty s
   \<and> (qty s \<noteq> quantity \<longrightarrow>
        number_to_string (qty s) \<noteq> number_to_string quantity
        \<and> last (toasts (fst (onAdd s product quantity)))
            \<noteq> number_to_string quantity @ '' '' @ p_name product @ '' (''
                 @ p_weight product @ '') added to the cart.'')"
proof -
  have t: "toasts (fst (onAdd s product quantity)) = toasts s @ [toast_text (qty s) product]"
    by (cases "in_cart (composite_key product) s")
       (simp_all add: onAdd_merge onAdd_insert toast_text_def)
  have q: "qty (fst (onAdd s product quantity)) = qty s"
    by (cases "in_cart (composite_key product) s") (simp_all add: onAdd_merge onAdd_insert)
  have n: "qty s \<noteq> quantity \<longrightarrow> toast_text (qty s) product \<noteq> toast_text quantity product"
    using toast_text_inj by blast
  from t q n show ?thesis
    using number_to_string_inj [of "qty s" quantity] by (auto simp: toast_text_def)
qed

theorem add_toast_reports_selector_witness:
  "qty (incQty (incQty initial_cart)) \<noteq> 1
   \<and> toasts (fst (onAdd (incQty (incQty initial_cart)) (sample_product ''p1'' 100 ''500g'') 1))
       = [''3 Blueberries (500g) added to the cart.'']
   \<and> map p_quantity
        (cartItems (fst (onAdd (incQty (incQty initial_cart)) (sample_product ''p1'' 100 ''500g'') 1)))
       = [1]"
proof -
  define s where "s = incQty (incQty initial_cart)"
  define p where "p = sample_product ''p1'' 100 ''500g''"
  have h: "qty s \<noteq> 1" unfolding s_def by code_simp
  have t: "toasts s = []" unfolding s_def by code_simp
  have n: "number_to_string (qty s) = ''3''" unfolding s_def by code_simp
  have m: "p_name p = ''Blueberries''" "p_weight p = ''500g''"
    unfolding p_def by (simp_all add: sample_product_def)
  have v: "map p_quantity (cartItems (fst (onAdd s p 1))) = [1]" unfolding s_def p_def by code_simp
  from h v add_toast_reports_selector [of s p 1] show ?thesis
    unfolding s_def [symmetric] p_def [symmetric] by (simp add: t n m)
qed

text \<open>
  Claim C10, as amended. When the composite key is not yet in the cart, \<open>onAdd\<close> leaves
  the caller's object with its quantity set to the quantity argument and its identifier
  set to identifier, hyphen, weight, and appends a copy of it to the line items. A second
  add of that object computes the key identifier, hyphen, weight, hyphen, weight, which
  differs from the identifier of the first line item, so the second add never merges
  with the first: it appends a second line item under the doubled key when the cart held
  no item under that key, and otherwise merges into the item that was already there.
\<close>

theorem add_mutates_argument:
  "\<not> in_cart (composite_key product) s \<Longrightarrow>
     (let (s1, product1) = onAdd s product quantity
      in product1 = product\<lparr>p_quantity := quantity,
                             p_id := p_id product @ ''-'' @ p_weight product\<rparr>
         \<and> cartItems s1 = cartItems s @ [product1]
         \<and> composite_key product1
             = p_id product @ ''-'' @ p_weight product @ ''-'' @ p_weight product
         \<and> composite_key product1 \<noteq> p_id product1
         \<and> (\<not> in_cart (composite_key product1) s \<longrightarrow>
              cartItems (fst (onAdd s1 product1 quantity2))
                = cartItems s @ [product1,
                     product1\<lparr>p_quantity := quantity2, p_id := composite_key product1\<rparr>])
         \<and> (in_cart (composite_key product1) s \<longrightarrow>
              cartItems (fst (onAdd s1 product1 quantity2))
                = map (merge_quantity (composite_key product1) quantity2) (cartItems s)
                  @ [product1]))"
proof -
  assume fresh: "\<not> in_cart (composite_key product) s"
  define product1 where
    "product1 = product\<lparr>p_quantity := quantity, p_id := composite_key product\<rparr>"
  define s1 where "s1 = fst (onAdd s product quantity)"
  have r: "onAdd s product quantity = (s1, product1)"
    unfolding s1_def product1_def using fresh by (simp add: onAdd_insert)
  have items: "cartItems s1 = cartItems s @ [product1]"
    unfolding s1_def product1_def using fresh by (simp add: onAdd_insert)
  have id1: "p_id product1 = composite_key product" by (simp add: product1_def)
  have key1: "composite_key product1
      = p_id product @ ''-'' @ p_weight product @ ''-'' @ p_weight product"
    by (simp add: product1_def composite_key_def)
  have ne: "composite_key product1 \<noteq> p_id product1"
    by (simp add: composite_key_def)
  have in1: "in_cart k s1 = (in_cart k s \<or> k = p_id product1)" for k
    by (auto simp: in_cart_def items)
  have ins: "\<not> in_cart (composite_key product1) s \<longrightarrow>
      cartItems (fst (onAdd s1 product1 quantity2))
        = cartItems s @ [product1,
             product1\<lparr>p_quantity := quantity2, p_id := composite_key product1\<rparr>]"
    using ne by (simp add: onAdd_insert in1 items)
  have mrg: "in_cart (composite_key product1) s \<longrightarrow>
      cartItems (fst (onAdd s1 product1 quantity2))
        = map (merge_quantity (composite_key product1) quantity2) (cartItems s) @ [product1]"
    using ne by (simp add: onAdd_merge in1 items merge_quantity_def)
  from items key1 ne ins mrg show ?thesis
    unfolding r by (simp add: product1_def composite_key_def)
qed

theorem add_mutates_argument_witness:
  "\<not> in_cart (composite_key (sample_product ''p1'' 100 ''500g'')) initial_cart
   \<and> \<not> in_cart ''p1-500g-500g'' initial_cart
   \<and> snd (onAdd initial_cart (sample_product ''p1'' 100 ''500g'') 2)
       = (sample_product ''p1-500g'' 100 ''500g'')\<lparr>p_quantity := 2\<rparr>
   \<and> map p_id (cartItems (fst (onAdd (fst (onAdd initial_cart (sample_product ''p1'' 100 ''500g'') 2))
        (snd (onAdd initial_cart (sample_product ''p1'' 100 ''500g'') 2)) 3)))
       = [''p1-500g'', ''p1-500g-500g'']
   \<and> \<not> in_cart (composite_key (sample_product ''p1'' 100 ''500g''))
         (fst (onAdd initial_cart (sample_product ''p1-500g'' 100 ''500g'') 1))
   \<and> in_cart ''p1-500g-500g'' (fst (onAdd initial_cart (sample_product ''p1-500g'' 100 ''500g'') 1))
   \<and> map p_quantity (cartItems (fst (onAdd
        (fst (onAdd (fst (onAdd initial_cart (sample_product ''p1-500g'' 100 ''500g'') 1))
               (sample_product ''p1'' 100 ''500g'') 2))
        (snd (onAdd (fst (onAdd initial_cart (sample_product ''p1-500g'' 100 ''500g'') 1))
               (sample_product ''p1'' 100 ''500g'') 2)) 3)))
       = [4, 2]"
proof -
  define p where "p = sample_product ''p1'' 100 ''500g''"
  define s0 where "s0 = fst (onAdd initial_cart (sample_product ''p1-500g'' 100 ''500g'') 1)"
  obtain s1 p1 where r: "onAdd initial_cart p 2 = (s1, p1)" by (cases "onAdd initial_cart p 2")
  obtain s2 p2 where r2: "onAdd s0 p 2 = (s2, p2)" by (cases "onAdd s0 p 2")
  have h: "\<not> in_cart (composite_key p) initial_cart" unfolding p_def by code_simp
  have g: "\<not> in_cart ''p1-500g-500g'' initial_cart" by code_simp
  have h0: "\<not> in_cart (composite_key p) s0" unfolding p_def s0_def by code_simp
  have g0: "in_cart ''p1-500g-500g'' s0" unfolding s0_def by code_simp
  have e: "cartItems initial_cart = []" by (simp add: initial_cart_def)
  have e0: "cartItems s0 = [(sample_product ''p1-500g-500g'' 100 ''500g'')\<lparr>p_quantity := 1\<rparr>]"
    unfolding s0_def by code_simp
  have k: "p_id p = ''p1''" "p_weight p = ''500g''"
    unfolding p_def by (simp_all add: sample_product_def)
  have q: "p\<lparr>p_quantity := 2, p_id := ''p1-500g''\<rparr>
      = (sample_product ''p1-500g'' 100 ''500g'')\<lparr>p_quantity := 2\<rparr>"
    unfolding p_def by (simp add: sample_product_def)
  note t = add_mutates_argument [OF h, of 2 3, unfolded r Let_def prod.case]
  from t have a0: "p1 = p\<lparr>p_quantity := 2, p_id := p_id p @ ''-'' @ p_weight p\<rparr>" by blast
  from t have b0: "composite_key p1 = p_id p @ ''-'' @ p_weight p @ ''-'' @ p_weight p"
    by blast
  from t have c: "\<not> in_cart (composite_key p1) initial_cart \<longrightarrow>
              cartItems (fst (onAdd s1 p1 3))
                = cartItems initial_cart @ [p1, p1\<lparr>p_quantity := 3, p_id := composite_key p1\<rparr>]"
    by blast
  from a0 have a: "p1 = (sample_product ''p1-500g'' 100 ''500g'')\<lparr>p_quantity := 2\<rparr>"
    by (simp add: k q)
  from b0 have b: "composite_key p1 = ''p1-500g-500g''" by (simp add: k)
  from b c g have "cartItems (fst (onAdd s1 p1 3))
      = [p1, p1\<lparr>p_quantity := 3, p_id := ''p1-500g-500g''\<rparr>]"
    by (simp add: e)
  then have first: "map p_id (cartItems (fst (onAdd s1 p1 3))) = [''p1-500g'', ''p1-500g-500g'']"
    by (simp add: a sample_product_def)
  note u = add_mutates_argument [OF h0, of 2 3, unfolded r2 Let_def prod.case]
  from u have a2: "p2 = p\<lparr>p_quantity := 2, p_id := p_id p @ ''-'' @ p_weight p\<rparr>" by blast
  from u have b2: "composite_key p2 = p_id p @ ''-'' @ p_weight p @ ''-'' @ p_weight p"
    by blast
  from u have c2: "in_cart (composite_key p2) s0 \<longrightarrow>
              cartItems (fst (onAdd s2 p2 3))
                = map (merge_quantity (composite_key p2) 3) (cartItems s0) @ [p2]"
    by blast
  from b2 have k2: "composite_key p2 = ''p1-500g-500g''" by (simp add: k)
  from c2 g0 k2 have "cartItems (fst (onAdd s2 p2 3))
      = map (merge_quantity ''p1-500g-500g'' 3) (cartItems s0) @ [p2]"
    by simp
  then have second: "map p_quantity (cartItems (fst (onAdd s2 p2 3))) = [4, 2]"
    by (simp add: e0 a2 merge_quantity_def sample_product_def)
  from a h g first h0 g0 second show ?thesis
    unfolding p_def [symmetric] s0_def [symmetric] r r2 by simp
qed

text \<open>
  Claim C10 as stated fails in a cart that already holds a line item under the doubled
  key: the second add of the mutated object merges into that item and inserts nothing.
\<close>

theorem second_add_may_merge:
  "\<not> in_cart (composite_key (sample_product ''p1'' 100 ''500g''))
       (fst (onAdd initial_cart (sample_product ''p1-500g'' 100 ''500g'') 1))
   \<and> map p_id (cartItems (fst (onAdd
        (fst (onAdd initial_cart (sample_product ''p1-500g'' 100 ''500g'') 1))
        (sample_product ''p1'' 100 ''500g'') 2)))
      = [''p1-500g-500g'', ''p1-500g'']
   \<and> map p_id (cartItems (fst (onAdd
        (fst (onAdd
          (fst (onAdd initial_cart (sample_product ''p1-500g'' 100 ''500g'') 1))
          (sample_product ''p1'' 100 ''500g'') 2))
        (snd (onAdd
          (fst (onAdd initial_cart (sample_product ''p1-500g'' 100 ''500g'') 1))
          (sample_product ''p1'' 100 ''500g'') 2)) 3)))
      = [''p1-500g-500g'', ''p1-500g'']
   \<and> map p_quantity (cartItems (fst (onAdd
        (fst (onAdd
          (fst (onAdd initial_cart (sample_product ''p1-500g'' 100 ''500g'') 1))
          (sample_product ''p1'' 100 ''500g'') 2))
        (snd (onAdd
          (fst (onAdd initial_cart (sample_product ''p1-500g'' 100 ''500g'') 1))
          (sample_product ''p1'' 100 ''500g'') 2)) 3)))
      = [4, 2]"
  by code_simp

section \<open>The claims about the article catalogue\<close>

text \<open>
  Claim C6. The filtered view is the list of all articles (the compiled-in ones followed
  by the converted remote ones) restricted, in order, to exactly the records in which the
  title, the excerpt or some tag contains a stretch of characters equal to the search
  text up to letter case, and whose category is the selected one, the selection \<open>All\<close>
  admitting every category. Setting a search text that differs from the current one
  stores it and puts the page number to 1, and so does selecting another category.
\<close>

theorem filtered_view_matches_spec:
  "filteredArticles s
     = filter (spec_matches (searchQuery s) (selectedCategory s)) (allArticles s)
   \<and> set (filteredArticles s)
       = {article \<in> set (allArticles s).
            spec_matches (searchQuery s) (selectedCategory s) article}
   \<and> (q \<noteq> searchQuery s \<longrightarrow>
        searchQuery (setSearchQuery s q) = q \<and> currentPage (setSearchQuery s q) = 1)
   \<and> (c \<noteq> selectedCategory s \<longrightarrow>
        selectedCategory (setSelectedCategory s c) = c
        \<and> currentPage (setSelectedCategory s c) = 1)"
proof -
  have f: "filteredArticles s
      = filter (spec_matches (searchQuery s) (selectedCategory s)) (allArticles s)"
    by (simp add: filteredArticles_def matches_spec)
  then have "set (filteredArticles s)
      = {article \<in> set (allArticles s).
           spec_matches (searchQuery s) (selectedCategory s) article}"
    by simp
  with f show ?thesis
    by (simp add: setSearchQuery_new setSelectedCategory_new)
qed

theorem filtered_view_matches_spec_witness:
  "''TEA'' \<noteq> searchQuery (initial_catalog\<lparr>currentPage := 2, loading := False\<rparr>)
   \<and> ''Technology'' \<noteq> selectedCategory (initial_catalog\<lparr>currentPage := 2, loading := False\<rparr>)
   \<and> currentPage (setSearchQuery (initial_catalog\<lparr>currentPage := 2, loading := False\<rparr>) ''TEA'') = 1
   \<and> currentPage
        (setSelectedCategory (initial_catalog\<lparr>currentPage := 2, loading := False\<rparr>) ''Technology'')
       = 1
   \<and> map a_id (filter
        (spec_matches
           (searchQuery (setSearchQuery (initial_catalog\<lparr>currentPage := 2, loading := False\<rparr>) ''TEA''))
           (selectedCategory (setSearchQuery (initial_catalog\<lparr>currentPage := 2, loading := False\<rparr>) ''TEA'')))
        (allArticles (setSearchQuery (initial_catalog\<lparr>currentPage := 2, loading := False\<rparr>) ''TEA'')))
       = [''7'']"
proof -
  define s where "s = initial_catalog\<lparr>currentPage := 2, loading := False\<rparr>"
  have a: "''TEA'' \<noteq> searchQuery s" unfolding s_def by (simp add: initial_catalog_def)
  have b: "''Technology'' \<noteq> selectedCategory s" unfolding s_def by (simp add: initial_catalog_def)
  have v: "map a_id (filteredArticles (setSearchQuery s ''TEA'')) = [''7'']"
    unfolding s_def by code_simp
  from a b filtered_view_matches_spec [of s "''TEA''" "''Technology''"]
  have "currentPage (setSearchQuery s ''TEA'') = 1"
    and "currentPage (setSelectedCategory s ''Technology'') = 1"
    by blast+
  moreover from v filtered_view_matches_spec [of "setSearchQuery s ''TEA''"]
  have "map a_id (filter
        (spec_matches (searchQuery (setSearchQuery s ''TEA''))
           (selectedCategory (setSearchQuery s ''TEA'')))
        (allArticles (setSearchQuery s ''TEA''))) = [''7'']"
    by simp
  ultimately show ?thesis using a b unfolding s_def by blast
qed

text \<open>
  Claim C7. When the request fails (it is rejected, the status is not a success, or the
  body cannot be read), the state cells are as before except that \<open>loading\<close> is false.
  After a failed request on mount the catalogue holds no remote record and exactly the
  15 compiled-in articles, is not loading, and is the very state reached by a successful
  request that returned no pages: nothing in the state tells the two apart.
\<close>

theorem failed_fetch_leaves_static_catalogue:
  "failed outcome \<Longrightarrow>
     fst (fetchPSEOPages formatDate s outcome) = s\<lparr>loading := False\<rparr>
     \<and> (let s' = fst (fetchPSEOPages formatDate initial_catalog outcome)
        in pseoPages s' = [] \<and> allArticles s' = staticArticles
           \<and> length (allArticles s') = 15 \<and> \<not> loading s'
           \<and> s' = fst (fetchPSEOPages formatDate initial_catalog (Pages [])))"
  by (cases outcome)
     (simp_all add: fetch_state allArticles_def initial_catalog_def length_staticArticles)

theorem failed_fetch_leaves_static_catalogue_witness:
  "failed NetworkError \<and> failed HttpFailure
   \<and> fst (fetchPSEOPages (\<lambda>d. d) initial_catalog NetworkError)
       = fst (fetchPSEOPages (\<lambda>d. d) initial_catalog (Pages []))
   \<and> fst (fetchPSEOPages (\<lambda>d. d) initial_catalog HttpFailure)
       = fst (fetchPSEOPages (\<lambda>d. d) initial_catalog (Pages []))
   \<and> \<not> loading (fst (fetchPSEOPages (\<lambda>d. d) initial_catalog NetworkError))
   \<and> allArticles (fst (fetchPSEOPages (\<lambda>d. d) initial_catalog HttpFailure)) = staticArticles"
proof -
  have a: "failed NetworkError" and b: "failed HttpFailure" by simp_all
  note n = failed_fetch_leaves_static_catalogue
             [OF a, of "\<lambda>d. d" initial_catalog, unfolded Let_def]
  note h = failed_fetch_leaves_static_catalogue
             [OF b, of "\<lambda>d. d" initial_catalog, unfolded Let_def]
  from n h a b show ?thesis by blast
qed

text \<open>
  Claim C8. In every state reached from the initial one by events the page offers, the
  page number is at least 1 and, when there is at least one page of results, at most the
  number of pages (the filtered count divided by 12, rounded up); the articles shown are
  the 12 of the filtered view that follow the first (page number - 1) times 12. A changed
  search text or category puts the page number to 1, and an offered Previous, Next,
  numbered or last-page button leaves the page number between 1 and the number of pages.
\<close>

theorem page_number_stays_in_range:
  "(let s = run_events formatDate initial_catalog events
    in 1 \<le> currentPage s
       \<and> (1 \<le> totalFilteredPages s \<longrightarrow> currentPage s \<le> totalFilteredPages s)
       \<and> paginatedArticles s
           = take 12 (drop (nat ((currentPage s - 1) * 12)) (filteredArticles s)))
   \<and> (q \<noteq> searchQuery s \<longrightarrow> currentPage (setSearchQuery s q) = 1)
   \<and> (c \<noteq> selectedCategory s \<longrightarrow> currentPage (setSelectedCategory s c) = 1)
   \<and> (is_navigation e \<and> offered s e \<and> page_in_range s \<longrightarrow>
        1 \<le> currentPage (on_event formatDate s e)
        \<and> currentPage (on_event formatDate s e) \<le> totalFilteredPages (on_event formatDate s e))"
proof -
  have "page_settled (run_events formatDate initial_catalog events)"
    using initial_settled by (rule run_events_settled)
  then have r: "page_in_range (run_events formatDate initial_catalog events)"
    by (rule settled_in_range)
  then have "1 \<le> currentPage (run_events formatDate initial_catalog events)"
    by (simp add: page_in_range_def)
  then have p: "paginatedArticles (run_events formatDate initial_catalog events)
      = take 12 (drop (nat ((currentPage (run_events formatDate initial_catalog events) - 1) * 12))
          (filteredArticles (run_events formatDate initial_catalog events)))"
    by (rule paginated_page)
  from r p navigation_in_range [of e s formatDate] show ?thesis
    by (simp add: Let_def page_in_range_def setSearchQuery_new setSelectedCategory_new)
qed

theorem page_number_stays_in_range_witness:
  "''tea'' \<noteq> searchQuery (initial_catalog\<lparr>currentPage := 2, loading := False\<rparr>)
   \<and> ''Technology'' \<noteq> selectedCategory (initial_catalog\<lparr>currentPage := 2, loading := False\<rparr>)
   \<and> is_navigation PreviousClick
   \<and> offered (initial_catalog\<lparr>currentPage := 2, loading := False\<rparr>) PreviousClick
   \<and> page_in_range (initial_catalog\<lparr>currentPage := 2, loading := False\<rparr>)
   \<and> run_events (\<lambda>d. d) initial_catalog [FetchSettled HttpFailure, NextClick]
       = initial_catalog\<lparr>currentPage := 2, loading := False\<rparr>
   \<and> 1 \<le> totalFilteredPages (initial_catalog\<lparr>currentPage := 2, loading := False\<rparr>)
   \<and> currentPage (on_event (\<lambda>d. d) (initial_catalog\<lparr>currentPage := 2, loading := False\<rparr>)
        PreviousClick) = 1
   \<and> currentPage (setSearchQuery (initial_catalog\<lparr>currentPage := 2, loading := False\<rparr>) ''tea'') = 1
   \<and> map a_id (paginatedArticles (initial_catalog\<lparr>currentPage := 2, loading := False\<rparr>))
       = [''9'', ''10'', ''11'']"
proof -
  define s where "s = initial_catalog\<lparr>currentPage := 2, loading := False\<rparr>"
  have fa: "filteredArticles s = staticArticles"
    unfolding s_def
    by (simp add: filteredArticles_def allArticles_def initial_catalog_def matchesSearch_empty
          matchesCategory_def)
  have t: "totalFilteredPages s = 2" by (simp add: total_pages_div fa length_staticArticles)
  have a: "''tea'' \<noteq> searchQuery s" unfolding s_def by (simp add: initial_catalog_def)
  have b: "''Technology'' \<noteq> selectedCategory s" unfolding s_def by (simp add: initial_catalog_def)
  have n: "is_navigation PreviousClick" by simp
  have o: "offered s PreviousClick" using t unfolding s_def by (simp add: initial_catalog_def)
  have r: "page_in_range s" using t unfolding s_def by (simp add: page_in_range_def initial_catalog_def)
  have e: "run_events (\<lambda>d. d) initial_catalog [FetchSettled HttpFailure, NextClick] = s"
  proof -
    have l: "loading initial_catalog" and c1: "currentPage initial_catalog = 1"
      by (simp_all add: initial_catalog_def)
    have s1: "step (\<lambda>d. d) initial_catalog (FetchSettled HttpFailure) = initial_catalog\<lparr>loading := False\<rparr>"
      using l by (simp add: step_def fetch_state)
    have "filteredArticles (initial_catalog\<lparr>loading := False\<rparr>) = staticArticles"
      by (simp add: filteredArticles_def allArticles_def initial_catalog_def matchesSearch_empty
          matchesCategory_def)
    then have t1: "totalFilteredPages (initial_catalog\<lparr>loading := False\<rparr>) = 2"
      by (simp add: total_pages_div length_staticArticles)
    have "offered (initial_catalog\<lparr>loading := False\<rparr>) NextClick"
      using t1 by (simp add: c1 del: total_frame)
    then have "step (\<lambda>d. d) (initial_catalog\<lparr>loading := False\<rparr>) NextClick
        = nextPage (initial_catalog\<lparr>loading := False\<rparr>)"
      by (simp add: step_def)
    also have "\<dots> = s"
      unfolding s_def nextPage_def using t1 by (simp add: c1 del: total_frame)
    finally have "step (\<lambda>d. d) (initial_catalog\<lparr>loading := False\<rparr>) NextClick = s" .
    with s1 show ?thesis by simp
  qed
  have pg: "map a_id (take 12 (drop (nat ((2 - 1) * 12)) staticArticles)) = [''9'', ''10'', ''11'']"
    by (simp add: staticArticles_def)
  have cp: "currentPage s = 2" unfolding s_def by simp
  from page_number_stays_in_range
         [of "\<lambda>d. d" "[FetchSettled HttpFailure, NextClick]" "''tea''" s "''Technology''" PreviousClick]
  have "paginatedArticles s = take 12 (drop (nat ((currentPage s - 1) * 12)) (filteredArticles s))"
    and "currentPage (setSearchQuery s ''tea'') = 1"
    and "1 \<le> currentPage (on_event (\<lambda>d. d) s PreviousClick)"
    and "currentPage (on_event (\<lambda>d. d) s PreviousClick) \<le> totalFilteredPages (on_event (\<lambda>d. d) s PreviousClick)"
    using a b n o r unfolding e Let_def by blast+
  moreover have "currentPage (on_event (\<lambda>d. d) s PreviousClick) = 1"
    by (simp add: previousPage_def cp)
  ultimately show ?thesis
    using a b n o r e t pg unfolding s_def [symmetric] by (simp add: fa cp)
qed

end
